theory Spec2Isabelle
  imports Complex_Main
begin

section \<open>JavaScript numbers\<close>

text \<open>
  A JavaScript number is modelled as a real number or one of the three special values
  of IEEE arithmetic. The special values follow the rules of ECMAScript (a comparison
  with \<open>NaN\<close> is false, \<open>0 * Infinity\<close> is \<open>NaN\<close>, \<open>x / 0\<close> is an infinity
  or \<open>NaN\<close>, and so on). Arithmetic on finite values is exact: rounding is not
  modelled, and there is one zero. The range of the doubles is modelled in
  \<open>Math.exp\<close>, where a computation of the program leaves it first; overflow of the
  other operations is not modelled.
\<close>

datatype jsnum = Fin real | PInf | NInf | NaN

fun isFinite :: "jsnum \<Rightarrow> bool" where
  "isFinite (Fin x) = True"
| "isFinite PInf = False"
| "isFinite NInf = False"
| "isFinite NaN = False"

fun isNaN :: "jsnum \<Rightarrow> bool" where
  "isNaN NaN = True"
| "isNaN (Fin x) = False"
| "isNaN PInf = False"
| "isNaN NInf = False"

text \<open>The sign of a number that is not \<open>NaN\<close>, as \<open>-1\<close>, \<open>0\<close> or \<open>1\<close>.\<close>

fun js_sign :: "jsnum \<Rightarrow> int" where
  "js_sign (Fin x) = (if x < 0 then -1 else if x = 0 then 0 else 1)"
| "js_sign PInf = 1"
| "js_sign NInf = -1"
| "js_sign NaN = 0"

fun js_neg :: "jsnum \<Rightarrow> jsnum" where
  "js_neg (Fin x) = Fin (- x)"
| "js_neg PInf = NInf"
| "js_neg NInf = PInf"
| "js_neg NaN = NaN"

fun js_add :: "jsnum \<Rightarrow> jsnum \<Rightarrow> jsnum" where
  "js_add NaN b = NaN"
| "js_add a NaN = NaN"
| "js_add (Fin x) (Fin y) = Fin (x + y)"
| "js_add PInf NInf = NaN"
| "js_add NInf PInf = NaN"
| "js_add PInf b = PInf"
| "js_add NInf b = NInf"
| "js_add a PInf = PInf"
| "js_add a NInf = NInf"

definition js_sub :: "jsnum \<Rightarrow> jsnum \<Rightarrow> jsnum" where
  "js_sub a b = js_add a (js_neg b)"

definition js_of_sign :: "int \<Rightarrow> jsnum" where
  "js_of_sign s = (if s = 0 then NaN else if 0 < s then PInf else NInf)"

fun js_mul :: "jsnum \<Rightarrow> jsnum \<Rightarrow> jsnum" where
  "js_mul NaN b = NaN"
| "js_mul a NaN = NaN"
| "js_mul (Fin x) (Fin y) = Fin (x * y)"
| "js_mul a b = js_of_sign (js_sign a * js_sign b)"

fun js_div :: "jsnum \<Rightarrow> jsnum \<Rightarrow> jsnum" where
  "js_div NaN b = NaN"
| "js_div a NaN = NaN"
| "js_div (Fin x) (Fin y) =
     (if y \<noteq> 0 then Fin (x / y)
      else if 0 < x then PInf else if x < 0 then NInf else NaN)"
| "js_div (Fin x) b = Fin 0"
| "js_div a (Fin y) = (if y < 0 then js_neg a else a)"
| "js_div a b = NaN"

text \<open>The relational operators: false as soon as one side is \<open>NaN\<close>.\<close>

fun js_lt :: "jsnum \<Rightarrow> jsnum \<Rightarrow> bool" where
  "js_lt (Fin x) (Fin y) = (x < y)"
| "js_lt NInf (Fin y) = True"
| "js_lt NInf PInf = True"
| "js_lt (Fin x) PInf = True"
| "js_lt a b = False"

definition js_eq :: "jsnum \<Rightarrow> jsnum \<Rightarrow> bool" where
  "js_eq a b = (a = b \<and> a \<noteq> NaN)"

definition js_neq :: "jsnum \<Rightarrow> jsnum \<Rightarrow> bool" where
  "js_neq a b = (\<not> js_eq a b)"

definition js_le :: "jsnum \<Rightarrow> jsnum \<Rightarrow> bool" where
  "js_le a b = (js_lt a b \<or> js_eq a b)"

definition js_gt :: "jsnum \<Rightarrow> jsnum \<Rightarrow> bool" where
  "js_gt a b = js_lt b a"

definition js_ge :: "jsnum \<Rightarrow> jsnum \<Rightarrow> bool" where
  "js_ge a b = js_le b a"

text \<open>The remainder operator \<open>%\<close>: the result has the sign of the dividend.\<close>

definition trunc_real :: "real \<Rightarrow> real" where
  "trunc_real x = (if 0 \<le> x then of_int \<lfloor>x\<rfloor> else of_int \<lceil>x\<rceil>)"

fun js_mod :: "jsnum \<Rightarrow> jsnum \<Rightarrow> jsnum" where
  "js_mod NaN b = NaN"
| "js_mod a NaN = NaN"
| "js_mod PInf b = NaN"
| "js_mod NInf b = NaN"
| "js_mod (Fin x) (Fin y) = (if y = 0 then NaN else Fin (x - y * trunc_real (x / y)))"
| "js_mod (Fin x) b = Fin x"

subsection \<open>The functions of \<open>Math\<close> that the model uses\<close>

text \<open>
  \<open>Math.exp\<close> leaves the range of the doubles on large arguments: a value below
  \<open>2^-1075\<close>, half of the least positive double, is returned as \<open>0\<close>, and a value
  from \<open>2^1024\<close> on as \<open>Infinity\<close>.
\<close>

definition exp_double :: "real \<Rightarrow> jsnum" where
  "exp_double x =
     (if exp x < 1 / 2 ^ 1075 then Fin 0
      else if 2 ^ 1024 \<le> exp x then PInf
      else Fin (exp x))"

fun Math_exp :: "jsnum \<Rightarrow> jsnum" where
  "Math_exp (Fin x) = exp_double x"
| "Math_exp PInf = PInf"
| "Math_exp NInf = Fin 0"
| "Math_exp NaN = NaN"

fun Math_log :: "jsnum \<Rightarrow> jsnum" where
  "Math_log (Fin x) = (if x < 0 then NaN else if x = 0 then NInf else Fin (ln x))"
| "Math_log PInf = PInf"
| "Math_log NInf = NaN"
| "Math_log NaN = NaN"

definition is_int_real :: "real \<Rightarrow> bool" where
  "is_int_real x = (x = of_int \<lfloor>x\<rfloor>)"

definition is_odd_real :: "real \<Rightarrow> bool" where
  "is_odd_real x = (is_int_real x \<and> odd \<lfloor>x\<rfloor>)"

fun Math_pow :: "jsnum \<Rightarrow> jsnum \<Rightarrow> jsnum" where
  "Math_pow a NaN = NaN"
| "Math_pow a (Fin y) =
     (if y = 0 then Fin 1
      else (case a of
          NaN \<Rightarrow> NaN
        | PInf \<Rightarrow> if 0 < y then PInf else Fin 0
        | NInf \<Rightarrow> if 0 < y then (if is_odd_real y then NInf else PInf) else Fin 0
        | Fin x \<Rightarrow>
            if x = 0 then (if 0 < y then Fin 0 else PInf)
            else if 0 < x then Fin (x powr y)
            else if is_int_real y
              then Fin ((if is_odd_real y then - 1 else 1) * ((- x) powr y))
            else NaN))"
| "Math_pow a PInf =
     (case a of
        NaN \<Rightarrow> NaN
      | Fin x \<Rightarrow> if 1 < \<bar>x\<bar> then PInf else if \<bar>x\<bar> = 1 then NaN else Fin 0
      | PInf \<Rightarrow> PInf
      | NInf \<Rightarrow> PInf)"
| "Math_pow a NInf =
     (case a of
        NaN \<Rightarrow> NaN
      | Fin x \<Rightarrow> if 1 < \<bar>x\<bar> then Fin 0 else if \<bar>x\<bar> = 1 then NaN else PInf
      | PInf \<Rightarrow> Fin 0
      | NInf \<Rightarrow> Fin 0)"

definition Math_max :: "jsnum \<Rightarrow> jsnum \<Rightarrow> jsnum" where
  "Math_max a b = (if a = NaN \<or> b = NaN then NaN else if js_lt a b then b else a)"

definition Math_min :: "jsnum \<Rightarrow> jsnum \<Rightarrow> jsnum" where
  "Math_min a b = (if a = NaN \<or> b = NaN then NaN else if js_lt b a then b else a)"

fun Math_abs :: "jsnum \<Rightarrow> jsnum" where
  "Math_abs (Fin x) = Fin \<bar>x\<bar>"
| "Math_abs PInf = PInf"
| "Math_abs NInf = PInf"
| "Math_abs NaN = NaN"

fun Math_round :: "jsnum \<Rightarrow> jsnum" where
  "Math_round (Fin x) = Fin (of_int \<lfloor>x + 1 / 2\<rfloor>)"
| "Math_round a = a"

fun Number_isInteger :: "jsnum \<Rightarrow> bool" where
  "Number_isInteger (Fin x) = is_int_real x"
| "Number_isInteger a = False"

section \<open>The economic model (math/UtilityFunctions.js)\<close>

datatype error =
    MathematicalError string
  | OptimizationError string
  | ValidationError
  | TypeError

text \<open>
  The parameter object. Every field is a number; \<open>w0\<close> may be missing, and the
  functions that destructure it with \<open>w0 = 1\<close> then read \<open>1\<close>.
\<close>

record parameters =
  p_r :: jsnum
  p_rho :: jsnum
  p_gamma :: jsnum
  p_eta :: jsnum
  p_beta :: jsnum
  p_tau :: jsnum
  p_t1 :: jsnum
  p_t2 :: jsnum
  p_w0 :: "jsnum option"

definition w0_or_1 :: "parameters \<Rightarrow> jsnum" where
  "w0_or_1 p = (case p_w0 p of None \<Rightarrow> Fin 1 | Some w \<Rightarrow> w)"

definition kappa :: "jsnum \<Rightarrow> jsnum \<Rightarrow> jsnum \<Rightarrow> error + jsnum" where
  "kappa r rho gamma =
     (if js_eq gamma (Fin 0)
        then Inl (MathematicalError ''Gamma cannot be zero in kappa calculation'')
      else
        let result = js_div (js_add (js_mul r (js_sub gamma (Fin 1))) rho) gamma
        in if \<not> isFinite result
             then Inl (MathematicalError ''Kappa calculation produced non-finite result'')
           else Inr result)"



text \<open>The value that \<open>U2\<close> computes once its guards have passed (lines 317 to 327).\<close>

definition U2_result :: "jsnum \<Rightarrow> jsnum \<Rightarrow> jsnum \<Rightarrow> jsnum \<Rightarrow> jsnum \<Rightarrow> jsnum \<Rightarrow> jsnum" where
  "U2_result gamma T kappaVal term1 term2 expNegKappaT =
     (if js_eq gamma (Fin 1)
        then js_sub (js_div (js_mul (Math_log term1) (js_sub (Fin 1) expNegKappaT)) kappaVal)
                    (Math_log term2)
      else
        let gammaTerm = js_sub (Fin 1) gamma;
            num = js_mul (js_mul (Math_pow term1 gammaTerm) (js_sub (Fin 1) expNegKappaT))
                         (Math_pow kappaVal (js_neg gamma));
            den = js_mul gammaTerm (Math_pow term2 gammaTerm)
        in js_div num den)"

text \<open>
  \<open>U2\<close> throws a \<open>MathematicalError\<close> at each failed guard; its \<open>catch\<close> rethrows
  such an error unchanged, and nothing else is thrown inside.
\<close>

definition U2 :: "jsnum \<Rightarrow> jsnum \<Rightarrow> jsnum \<Rightarrow> jsnum \<Rightarrow> jsnum \<Rightarrow> jsnum \<Rightarrow> error + jsnum" where
  "U2 r rho gamma T A B =
     (if js_le T (Fin 0)
        then Inl (MathematicalError ''Time period T must be positive'')
      else
        let expRT = Math_exp (js_mul r T);
            term1 = js_sub (js_mul expRT A) B
        in if js_le term1 (Fin 0)
             then Inl (MathematicalError ''Insufficient wealth for consumption (expRT * A - B <= 0)'')
           else
             (case kappa r rho gamma of
                Inl e \<Rightarrow> Inl e
              | Inr kappaVal \<Rightarrow>
                  let expNegKappaT = Math_exp (js_mul (js_neg kappaVal) T);
                      expRminusRhoToverGamma = Math_exp (js_div (js_mul (js_sub r rho) T) gamma);
                      term2 = js_sub expRT expRminusRhoToverGamma
                  in if js_le term2 (Fin 0)
                       then Inl (MathematicalError ''Invalid utility calculation (term2 <= 0)'')
                     else if js_neq gamma (Fin 1) \<and> js_lt term1 (Fin 0)
                             \<and> js_neq (js_mod (js_sub (Fin 1) gamma) (Fin 1)) (Fin 0)
                       then Inl (MathematicalError ''Complex number result from fractional power of negative term1'')
                     else if js_neq gamma (Fin 1) \<and> js_lt term2 (Fin 0)
                             \<and> js_neq (js_mod (js_sub (Fin 1) gamma) (Fin 1)) (Fin 0)
                       then Inl (MathematicalError ''Complex number result from fractional power of negative term2'')
                     else
                       let result = U2_result gamma T kappaVal term1 term2 expNegKappaT
                       in if \<not> isFinite result \<or> isNaN result
                            then Inl (MathematicalError ''U2 calculation produced non-finite result'')
                          else Inr result))"


text \<open>
  The bequest term of \<open>lifetimeUtility\<close> (lines 376 to 395): \<open>None\<close> where the source
  returns the penalty from inside this part.
\<close>

definition bequestUtility :: "jsnum \<Rightarrow> jsnum \<Rightarrow> jsnum \<Rightarrow> jsnum option" where
  "bequestUtility beta eta w2 =
     (if js_le w2 (Fin 0) then None
      else if js_eq eta (Fin 1)
        then Some (js_mul beta (Math_log (Math_max w2 (Fin (1 / 10 ^ 10)))))
      else if js_le w2 (Fin 0) \<and> js_neq (js_mod (js_sub (Fin 1) eta) (Fin 1)) (Fin 0)
        then None
      else
        let etaTerm = js_sub (Fin 1) eta
        in Some (js_div (js_mul beta (Math_pow (Math_max w2 (Fin (1 / 10 ^ 10))) etaTerm)) etaTerm))"

definition penalty :: jsnum where
  "penalty = Fin (- 5000)"

text \<open>
  The body of the \<open>try\<close> block of \<open>lifetimeUtility\<close>: \<open>Inl\<close> is an error thrown by
  \<open>U2\<close>, \<open>Inr\<close> the value returned.
\<close>

definition lifetimeUtility_try ::
  "jsnum \<Rightarrow> jsnum \<Rightarrow> jsnum \<Rightarrow> jsnum \<Rightarrow> jsnum \<Rightarrow> jsnum \<Rightarrow> jsnum \<Rightarrow> jsnum \<Rightarrow> jsnum \<Rightarrow> jsnum \<Rightarrow> jsnum
     \<Rightarrow> error + jsnum" where
  "lifetimeUtility_try r rho gamma t1 t2 beta eta tau w0 w1 w2 =
     (case U2 r rho gamma t1 w0 w1 of
        Inl e \<Rightarrow> Inl e
      | Inr u1 \<Rightarrow>
          if \<not> isFinite u1 \<or> js_eq u1 NInf then Inr penalty
          else
            (case U2 r rho gamma t2 (js_mul w1 (js_sub (Fin 1) tau)) w2 of
               Inl e \<Rightarrow> Inl e
             | Inr u2 \<Rightarrow>
                 if \<not> isFinite u2 \<or> js_eq u2 NInf then Inr penalty
                 else
                   (case bequestUtility beta eta w2 of
                      None \<Rightarrow> Inr penalty
                    | Some bequest \<Rightarrow>
                        if \<not> isFinite bequest \<or> isNaN bequest then Inr penalty
                        else
                          let totalUtility =
                                js_add (js_add u1 (js_mul (Math_exp (js_mul (js_neg rho) t1)) u2))
                                       bequest
                          in if \<not> isFinite totalUtility \<or> isNaN totalUtility then Inr penalty
                             else Inr totalUtility)))"

text \<open>The \<open>catch\<close> of \<open>lifetimeUtility\<close> turns every error into the penalty.\<close>

definition lifetimeUtility ::
  "jsnum \<Rightarrow> jsnum \<Rightarrow> jsnum \<Rightarrow> jsnum \<Rightarrow> jsnum \<Rightarrow> jsnum \<Rightarrow> jsnum \<Rightarrow> jsnum \<Rightarrow> jsnum \<Rightarrow> jsnum \<Rightarrow> jsnum
     \<Rightarrow> jsnum" where
  "lifetimeUtility r rho gamma t1 t2 beta eta tau w0 w1 w2 =
     (case lifetimeUtility_try r rho gamma t1 t2 beta eta tau w0 w1 w2 of
        Inl e \<Rightarrow> penalty
      | Inr v \<Rightarrow> v)"

definition checkConstraints :: "jsnum \<Rightarrow> jsnum \<Rightarrow> parameters \<Rightarrow> bool" where
  "checkConstraints w1 w2 p =
     (if js_le w1 (Fin 0) \<or> js_le w2 (Fin 0) then False
      else
        let maxW1 = js_mul (Math_exp (js_mul (p_r p) (p_t1 p))) (w0_or_1 p)
        in if js_ge w1 maxW1 then False
           else
             let maxW2 = js_mul (js_mul w1 (js_sub (Fin 1) (p_tau p)))
                                (Math_exp (js_mul (p_r p) (p_t2 p)))
             in if js_ge w2 maxW2 then False else True)"

section \<open>The optimization service (services/OptimizationService.js)\<close>

record options =
  maxIterations :: nat
  tolerance :: jsnum
  gridSteps :: nat
  warmStartEnabled :: bool
  cacheSize :: nat
  cacheTTL :: int
  useWebWorkers :: bool
  fallbackToMainThread :: bool

definition default_options :: options where
  "default_options =
     \<lparr>maxIterations = 1000, tolerance = Fin (1 / 10 ^ 12), gridSteps = 100,
      warmStartEnabled = True, cacheSize = 100, cacheTTL = 60000,
      useWebWorkers = False, fallbackToMainThread = True\<rparr>"

text \<open>The object that \<open>performOptimization\<close> returns, without its two timing fields.\<close>

record opt_result =
  res_w1 :: jsnum
  res_w2 :: jsnum
  res_utility :: jsnum
  res_iterations :: jsnum
  res_convergence :: string
  res_method :: string

text \<open>The object that \<open>findOptimalWealth\<close> returns: the same with \<open>cacheHit\<close>.\<close>

record final_result = opt_result +
  res_cacheHit :: bool

record cache_entry =
  entry_result :: opt_result
  entry_timestamp :: int

text \<open>
  A cache key is the JSON text of the rounded parameters. The text is determined by the
  list of its numbers in the order of the fields, where JSON writes \<open>null\<close> (here
  \<open>None\<close>) for a number that is not finite and leaves a missing \<open>w0\<close> out.
\<close>

type_synonym cache_key = "real option list"

record service_state =
  cache :: "cache_key \<rightharpoonup> cache_entry"
  cacheOrder :: "cache_key list"
  lastOptimalResult :: "(jsnum \<times> jsnum) option"
  lastParameters :: "parameters option"

definition initial_state :: service_state where
  "initial_state =
     \<lparr>cache = Map.empty, cacheOrder = [], lastOptimalResult = None, lastParameters = None\<rparr>"

subsection \<open>Parameter validation (utils/ParameterValidator.js)\<close>

text \<open>
  A parameter passes its range rule when it is neither below the minimum nor above the
  maximum, and its finite rule when it is finite.
\<close>

definition range_finite_ok :: "real \<Rightarrow> real \<Rightarrow> jsnum \<Rightarrow> bool" where
  "range_finite_ok lo hi v = (\<not> (js_lt v (Fin lo) \<or> js_gt v (Fin hi)) \<and> isFinite v)"

definition validate :: "parameters \<Rightarrow> bool" where
  "validate p =
     (range_finite_ok 0.001 0.2 (p_r p)
      \<and> range_finite_ok 0.001 0.15 (p_rho p)
      \<and> range_finite_ok 0.1 5 (p_gamma p) \<and> \<not> js_eq (p_gamma p) (Fin 1)
      \<and> range_finite_ok 0.1 5 (p_eta p) \<and> \<not> js_eq (p_eta p) (Fin 1)
      \<and> range_finite_ok 0 50 (p_beta p)
      \<and> range_finite_ok 0 0.99 (p_tau p)
      \<and> range_finite_ok 1 100 (p_t1 p) \<and> Number_isInteger (p_t1 p)
      \<and> range_finite_ok 1 100 (p_t2 p) \<and> Number_isInteger (p_t2 p)
      \<and> (case p_w0 p of None \<Rightarrow> False | Some w \<Rightarrow> range_finite_ok 0.01 1000 w)
      \<and> \<not> js_le (p_r p) (p_rho p)
      \<and> \<not> js_gt (js_add (p_t1 p) (p_t2 p)) (Fin 120)
      \<and> \<not> js_lt (p_t1 p) (Fin 5)
      \<and> \<not> js_gt (Math_abs (js_sub (p_gamma p) (p_eta p))) (Fin 3))"

definition default_parameters :: parameters where
  "default_parameters =
     \<lparr>p_r = Fin 0.06, p_rho = Fin 0.04, p_gamma = Fin 0.7, p_eta = Fin 1.7, p_beta = Fin 3,
      p_tau = Fin 0, p_t1 = Fin 20, p_t2 = Fin 25, p_w0 = Some (Fin 1)\<rparr>"

subsection \<open>Search space and grid search\<close>

definition isParameterSimilar :: "parameters \<Rightarrow> parameters option \<Rightarrow> bool" where
  "isParameterSimilar params1 params2 =
     (case params2 of
        None \<Rightarrow> False
      | Some q \<Rightarrow>
          list_all
            (\<lambda>param. \<not> js_gt (js_div (Math_abs (js_sub (param params1) (param q)))
                                     (Math_max (param params1) (param q)))
                             (Fin 0.1))
            [p_r, p_rho, p_gamma, p_eta, p_beta, p_tau])"

record searchSpace =
  w1Min :: jsnum
  w1Max :: jsnum
  w2Min :: jsnum
  w2Max :: jsnum
  centerW1 :: jsnum
  centerW2 :: jsnum

text \<open>The centre and the radius of the box: the hint when warm-starting, else the default.\<close>

definition search_center :: "options \<Rightarrow> service_state \<Rightarrow> parameters \<Rightarrow> jsnum \<times> jsnum \<times> jsnum" where
  "search_center opts s p =
     (let maxW1 = js_mul (Math_exp (js_mul (p_r p) (p_t1 p))) (w0_or_1 p);
          cold = (js_mul maxW1 (Fin 0.6), js_mul maxW1 (Fin 0.5), Fin 0.4)
      in case lastOptimalResult s of
           None \<Rightarrow> cold
         | Some (hintW1, hintW2) \<Rightarrow>
             if warmStartEnabled opts \<and> isParameterSimilar p (lastParameters s)
               then (if \<not> checkConstraints hintW1 hintW2 p then cold
                     else (hintW1, hintW2, Fin 0.2))
             else cold)"

definition determineSearchSpace :: "options \<Rightarrow> service_state \<Rightarrow> parameters \<Rightarrow> searchSpace" where
  "determineSearchSpace opts s p =
     (let maxW1 = js_mul (Math_exp (js_mul (p_r p) (p_t1 p))) (w0_or_1 p);
          (cW1, cW2, radius) = search_center opts s p
      in \<lparr>w1Min = Math_max (Fin 0.01) (js_mul cW1 (js_sub (Fin 1) radius)),
          w1Max = Math_min (js_sub maxW1 (Fin 0.01)) (js_mul cW1 (js_add (Fin 1) radius)),
          w2Min = Math_max (Fin 0.01) (js_mul cW2 (js_sub (Fin 1) radius)),
          w2Max = Math_min (js_mul cW2 (js_add (Fin 1) (js_mul radius (Fin 2))))
                           (js_mul maxW1 (Fin 3)),
          centerW1 = cW1,
          centerW2 = cW2\<rparr>)"

record grid_acc =
  bestW1 :: jsnum
  bestW2 :: jsnum
  bestUtility :: jsnum
  evaluations :: nat

text \<open>The sample \<open>lo + (hi - lo) * i / gridSteps\<close>.\<close>

definition grid_point :: "jsnum \<Rightarrow> jsnum \<Rightarrow> nat \<Rightarrow> nat \<Rightarrow> jsnum" where
  "grid_point lo hi i n =
     js_add lo (js_div (js_mul (js_sub hi lo) (Fin (real i))) (Fin (real n)))"

text \<open>
  The body of the inner loop. \<open>lifetimeUtility\<close> never throws, so the \<open>catch\<close> around
  it is never entered.
\<close>

definition grid_visit :: "parameters \<Rightarrow> jsnum \<Rightarrow> jsnum \<Rightarrow> grid_acc \<Rightarrow> grid_acc" where
  "grid_visit p w1 w2 acc =
     (let acc1 = acc\<lparr>evaluations := evaluations acc + 1\<rparr>
      in if \<not> checkConstraints w1 w2 p then acc1
         else
           let utility = lifetimeUtility (p_r p) (p_rho p) (p_gamma p) (p_t1 p) (p_t2 p)
                           (p_beta p) (p_eta p) (p_tau p) (w0_or_1 p) w1 w2
           in if isFinite utility \<and> js_gt utility (bestUtility acc1)
                then acc1\<lparr>bestUtility := utility, bestW1 := w1, bestW2 := w2\<rparr>
              else acc1)"

definition grid_row :: "parameters \<Rightarrow> searchSpace \<Rightarrow> nat \<Rightarrow> nat \<Rightarrow> grid_acc \<Rightarrow> grid_acc" where
  "grid_row p ss n i acc =
     (let w1 = grid_point (w1Min ss) (w1Max ss) i n
      in fold (\<lambda>j a. grid_visit p w1 (grid_point (w2Min ss) (w2Max ss) j n) a) [0..<Suc n] acc)"

record grid_result =
  g_success :: bool
  g_w1 :: jsnum
  g_w2 :: jsnum
  g_utility :: jsnum
  g_evaluations :: nat
  g_method :: string

definition gridSearch :: "options \<Rightarrow> parameters \<Rightarrow> searchSpace \<Rightarrow> grid_result" where
  "gridSearch opts p ss =
     (let n = gridSteps opts;
          acc = fold (grid_row p ss n) [0..<Suc n]
                  \<lparr>bestW1 = centerW1 ss, bestW2 = centerW2 ss, bestUtility = NInf,
                   evaluations = 0\<rparr>
      in \<lparr>g_success = js_gt (bestUtility acc) NInf,
          g_w1 = bestW1 acc,
          g_w2 = bestW2 acc,
          g_utility = bestUtility acc,
          g_evaluations = evaluations acc,
          g_method = ''grid_search''\<rparr>)"

subsection \<open>Numerical refinement\<close>

text \<open>
  \<open>numeric.uncmin\<close> belongs to the library numeric.js, which the page loads from a
  content delivery network: it is a parameter of the model. A call throws, or returns
  a value that is falsy (\<open>None\<close>) or an object with a solution, the objective value
  \<open>f\<close> there and possibly a number of iterations.
\<close>

record uncmin_result =
  um_solution :: "jsnum \<times> jsnum"
  um_f :: jsnum
  um_iterations :: "jsnum option"

datatype uncmin_outcome = Uncmin_throws | Uncmin_returns "uncmin_result option"

type_synonym uncmin_fn =
  "(jsnum \<times> jsnum \<Rightarrow> jsnum) \<Rightarrow> jsnum \<times> jsnum \<Rightarrow> jsnum \<Rightarrow> nat \<Rightarrow> uncmin_outcome"

text \<open>\<open>x || 0\<close> for a number that may be missing, and \<open>s || d\<close> for a string.\<close>

definition or_zero :: "jsnum option \<Rightarrow> jsnum" where
  "or_zero x =
     (case x of
        None \<Rightarrow> Fin 0
      | Some v \<Rightarrow> if v = NaN \<or> v = Fin 0 then Fin 0 else v)"

definition or_string :: "string option \<Rightarrow> string \<Rightarrow> string" where
  "or_string x d = (case x of None \<Rightarrow> d | Some v \<Rightarrow> if v = [] then d else v)"

definition objectiveFunction :: "parameters \<Rightarrow> jsnum \<times> jsnum \<Rightarrow> jsnum" where
  "objectiveFunction p vars =
     (let (w1, w2) = vars
      in if \<not> checkConstraints w1 w2 p then Fin (10 ^ 10)
         else
           let utility = lifetimeUtility (p_r p) (p_rho p) (p_gamma p) (p_t1 p) (p_t2 p)
                           (p_beta p) (p_eta p) (p_tau p) (w0_or_1 p) w1 w2
           in if \<not> isFinite utility \<or> js_eq utility (Fin (- 5000)) then Fin (10 ^ 10)
              else js_neg utility)"

text \<open>
  What \<open>numericalRefinement\<close> returns and \<open>performMainThreadOptimization\<close> reads: the
  grid result has neither \<open>iterations\<close> nor \<open>convergence\<close>.
\<close>

record phase_result =
  ph_w1 :: jsnum
  ph_w2 :: jsnum
  ph_utility :: jsnum
  ph_iterations :: "jsnum option"
  ph_convergence :: "string option"
  ph_method :: string

definition grid_as_phase :: "grid_result \<Rightarrow> phase_result" where
  "grid_as_phase g =
     \<lparr>ph_w1 = g_w1 g, ph_w2 = g_w2 g, ph_utility = g_utility g, ph_iterations = None,
      ph_convergence = None, ph_method = g_method g\<rparr>"

definition numericalRefinement ::
  "uncmin_fn \<Rightarrow> options \<Rightarrow> parameters \<Rightarrow> grid_result \<Rightarrow> phase_result" where
  "numericalRefinement uncmin opts p g =
     (case uncmin (objectiveFunction p) (g_w1 g, g_w2 g) (tolerance opts) (maxIterations opts) of
        Uncmin_throws \<Rightarrow> grid_as_phase g
      | Uncmin_returns None \<Rightarrow> grid_as_phase g
      | Uncmin_returns (Some res) \<Rightarrow>
          if isFinite (um_f res) \<and> js_lt (um_f res) (Fin (10 ^ 9))
            then (let (finalW1, finalW2) = um_solution res
                  in if checkConstraints finalW1 finalW2 p
                       then \<lparr>ph_w1 = finalW1, ph_w2 = finalW2,
                             ph_utility = js_neg (um_f res),
                             ph_iterations = Some (or_zero (um_iterations res)),
                             ph_convergence = Some ''converged'',
                             ph_method = ''numerical_refinement''\<rparr>
                     else grid_as_phase g)
          else grid_as_phase g)"

definition performMainThreadOptimization ::
  "uncmin_fn \<Rightarrow> options \<Rightarrow> service_state \<Rightarrow> parameters \<Rightarrow> error + opt_result" where
  "performMainThreadOptimization uncmin opts s p =
     (let space = determineSearchSpace opts s p;
          gridResult = gridSearch opts p space
      in if \<not> g_success gridResult
           then Inl (OptimizationError ''Grid search failed to find feasible solution'')
         else
           let finalResult = numericalRefinement uncmin opts p gridResult
           in Inr \<lparr>res_w1 = ph_w1 finalResult,
                   res_w2 = ph_w2 finalResult,
                   res_utility = ph_utility finalResult,
                   res_iterations = or_zero (ph_iterations finalResult),
                   res_convergence = or_string (ph_convergence finalResult) ''grid_only'',
                   res_method = or_string (Some (ph_method finalResult)) ''hybrid''\<rparr>)"

text \<open>
  With \<open>useWebWorkers\<close> the service calls \<open>workerManager.optimizeWealth\<close>, which the
  mock worker manager of this file does not have: the call throws a \<open>TypeError\<close>, and
  the service falls back to the main thread or rethrows. Every error leaves as an
  \<open>OptimizationError\<close>. The statistics counters are left out.
\<close>

definition performOptimization ::
  "uncmin_fn \<Rightarrow> options \<Rightarrow> service_state \<Rightarrow> parameters \<Rightarrow> error + opt_result" where
  "performOptimization uncmin opts s p =
     (let attempt =
            (if useWebWorkers opts
               then (if fallbackToMainThread opts
                       then performMainThreadOptimization uncmin opts s p
                     else Inl TypeError)
             else performMainThreadOptimization uncmin opts s p)
      in case attempt of
           Inl e \<Rightarrow> Inl (OptimizationError ''Optimization failed'')
         | Inr res \<Rightarrow>
             Inr \<lparr>res_w1 = res_w1 res,
                  res_w2 = res_w2 res,
                  res_utility = res_utility res,
                  res_iterations = or_zero (Some (res_iterations res)),
                  res_convergence = or_string (Some (res_convergence res)) ''grid_only'',
                  res_method = or_string (Some (res_method res)) ''hybrid''\<rparr>)"

subsection \<open>The result cache and the warm-start slot\<close>

definition json_number :: "jsnum \<Rightarrow> real option" where
  "json_number v = (case v of Fin x \<Rightarrow> Some x | _ \<Rightarrow> None)"

definition round3 :: "jsnum \<Rightarrow> jsnum" where
  "round3 v = js_div (Math_round (js_mul v (Fin 1000))) (Fin 1000)"

definition generateCacheKey :: "parameters \<Rightarrow> cache_key" where
  "generateCacheKey p =
     map (json_number \<circ> round3)
       ([p_r p, p_rho p, p_gamma p, p_eta p, p_beta p, p_tau p, p_t1 p, p_t2 p]
        @ (case p_w0 p of None \<Rightarrow> [] | Some w \<Rightarrow> [w]))"

text \<open>\<open>now\<close> is the value of \<open>Date.now()\<close> at the call.\<close>

definition getFromCache ::
  "options \<Rightarrow> service_state \<Rightarrow> cache_key \<Rightarrow> int \<Rightarrow> opt_result option \<times> service_state" where
  "getFromCache opts s key now =
     (case cache s key of
        None \<Rightarrow> (None, s)
      | Some entry \<Rightarrow>
          if now - entry_timestamp entry > cacheTTL opts
            then (None, s\<lparr>cache := (cache s)(key := None)\<rparr>)
          else (Some (entry_result entry),
                s\<lparr>cacheOrder := key # remove1 key (cacheOrder s)\<rparr>))"

text \<open>
  The eviction loop of \<open>addToCache\<close>. On an empty order list \<open>pop\<close> returns
  \<open>undefined\<close> and changes nothing, so with \<open>cacheSize = 0\<close> the loop does not end.
\<close>

partial_function (option) evictWhileFull :: "options \<Rightarrow> service_state \<Rightarrow> service_state option" where
  "evictWhileFull opts s =
     (if length (cacheOrder s) \<ge> cacheSize opts
        then (case cacheOrder s of
                [] \<Rightarrow> evictWhileFull opts s
              | k # ks \<Rightarrow>
                  evictWhileFull opts
                    (s\<lparr>cacheOrder := butlast (cacheOrder s),
                       cache := (cache s)(last (cacheOrder s) := None)\<rparr>))
      else Some s)"

definition addToCache ::
  "options \<Rightarrow> service_state \<Rightarrow> cache_key \<Rightarrow> opt_result \<Rightarrow> int \<Rightarrow> service_state option" where
  "addToCache opts s key res now =
     (case evictWhileFull opts s of
        None \<Rightarrow> None
      | Some s1 \<Rightarrow>
          Some (s1\<lparr>cache := (cache s1)(key \<mapsto> \<lparr>entry_result = res, entry_timestamp = now\<rparr>),
                   cacheOrder := key # cacheOrder s1\<rparr>))"

definition updateWarmStart :: "service_state \<Rightarrow> parameters \<Rightarrow> opt_result \<Rightarrow> service_state" where
  "updateWarmStart s p res =
     s\<lparr>lastOptimalResult := Some (res_w1 res, res_w2 res), lastParameters := Some p\<rparr>"

definition clearCache :: "service_state \<Rightarrow> service_state" where
  "clearCache s = s\<lparr>cache := Map.empty, cacheOrder := []\<rparr>"

definition resetWarmStart :: "service_state \<Rightarrow> service_state" where
  "resetWarmStart s = s\<lparr>lastOptimalResult := None, lastParameters := None\<rparr>"

text \<open>The copy \<open>{...result, cacheHit: hit}\<close>.\<close>

definition with_cacheHit :: "opt_result \<Rightarrow> bool \<Rightarrow> final_result" where
  "with_cacheHit res hit =
     \<lparr>res_w1 = res_w1 res, res_w2 = res_w2 res, res_utility = res_utility res,
      res_iterations = res_iterations res, res_convergence = res_convergence res,
      res_method = res_method res, res_cacheHit = hit\<rparr>"

text \<open>
  \<open>findOptimalWealth\<close> returns what the caller sees (an error or the result) and the
  state it leaves, or \<open>None\<close> when the eviction loop does not end. \<open>now_get\<close> and
  \<open>now_put\<close> are the clock readings in \<open>getFromCache\<close> and in \<open>addToCache\<close>.
  First the \<open>try\<close> block that runs after a cache miss.
\<close>

definition findOptimalWealth_try ::
  "uncmin_fn \<Rightarrow> options \<Rightarrow> service_state \<Rightarrow> parameters \<Rightarrow> cache_key \<Rightarrow> int
     \<Rightarrow> ((error + final_result) \<times> service_state) option" where
  "findOptimalWealth_try uncmin opts s1 p cacheKey now_put =
     (case performOptimization uncmin opts s1 p of
        Inl e \<Rightarrow> Some (Inl (OptimizationError ''Optimization failed for parameters''), s1)
      | Inr res \<Rightarrow>
          (case addToCache opts s1 cacheKey res now_put of
             None \<Rightarrow> None
           | Some s2 \<Rightarrow> Some (Inr (with_cacheHit res False), updateWarmStart s2 p res)))"

definition findOptimalWealth ::
  "uncmin_fn \<Rightarrow> options \<Rightarrow> service_state \<Rightarrow> parameters \<Rightarrow> int \<Rightarrow> int
     \<Rightarrow> ((error + final_result) \<times> service_state) option" where
  "findOptimalWealth uncmin opts s p now_get now_put =
     (if \<not> validate p then Some (Inl ValidationError, s)
      else
        let cacheKey = generateCacheKey p
        in case getFromCache opts s cacheKey now_get of
             (Some cached, s1) \<Rightarrow> Some (Inr (with_cacheHit cached True), s1)
           | (None, s1) \<Rightarrow> findOptimalWealth_try uncmin opts s1 p cacheKey now_put)"

text \<open>The states that a service reaches from its construction by calls of its methods.\<close>

inductive reachable :: "uncmin_fn \<Rightarrow> options \<Rightarrow> service_state \<Rightarrow> bool"
  for uncmin :: uncmin_fn and opts :: options where
  reach_init: "reachable uncmin opts initial_state"
| reach_find:
    "reachable uncmin opts s \<Longrightarrow>
     findOptimalWealth uncmin opts s p now_get now_put = Some (outcome, s') \<Longrightarrow>
     reachable uncmin opts s'"
| reach_clear: "reachable uncmin opts s \<Longrightarrow> reachable uncmin opts (clearCache s)"
| reach_reset: "reachable uncmin opts s \<Longrightarrow> reachable uncmin opts (resetWarmStart s)"

section \<open>Invariants and sample environments\<close>

text \<open>
  The order list is no longer than the capacity, and every key of the map occurs in it.
\<close>

definition cache_inv :: "options \<Rightarrow> service_state \<Rightarrow> bool" where
  "cache_inv opts s =
     (length (cacheOrder s) \<le> cacheSize opts \<and> dom (cache s) \<subseteq> set (cacheOrder s))"

text \<open>
  During the grid search the best utility is still \<open>-Infinity\<close>, or it is finite, the
  best point has passed \<open>checkConstraints\<close> and the best utility is the lifetime
  utility there.
\<close>

definition grid_inv :: "parameters \<Rightarrow> grid_acc \<Rightarrow> bool" where
  "grid_inv p acc =
     (bestUtility acc = NInf
      \<or> (isFinite (bestUtility acc) \<and> checkConstraints (bestW1 acc) (bestW2 acc) p
          \<and> bestUtility acc =
              lifetimeUtility (p_r p) (p_rho p) (p_gamma p) (p_t1 p) (p_t2 p) (p_beta p)
                (p_eta p) (p_tau p) (w0_or_1 p) (bestW1 acc) (bestW2 acc)))"

text \<open>
  The minimiser as the source calls it. \<open>numericalRefinement\<close> passes \<open>null\<close> for the
  gradient. The library (numeric.js 1.2.6, the version that index.html loads) puts its
  numerical gradient in the place of an \<open>undefined\<close> gradient only, and then calls
  the gradient: with \<open>null\<close> that call throws a \<open>TypeError\<close>, in every call of
  \<open>numeric.uncmin\<close> that the service makes. \<open>numericalRefinement\<close> catches it.
\<close>

definition uncmin_throws :: uncmin_fn where
  "uncmin_throws = (\<lambda>objective x0 tol maxit. Uncmin_throws)"





text \<open>A service that has just solved the default parameters with the answer \<open>(1, 1)\<close>.\<close>

definition warm_state :: service_state where
  "warm_state =
     \<lparr>cache = Map.empty, cacheOrder = [], lastOptimalResult = Some (Fin 1, Fin 1),
      lastParameters = Some default_parameters\<rparr>"

section \<open>Properties of the economic model\<close>

subsection \<open>Arithmetic on finite numbers\<close>

lemma js_sub_Fin [simp]: "js_sub (Fin x) (Fin y) = Fin (x - y)"
  by (simp add: js_sub_def)

lemma js_eq_Fin [simp]: "js_eq (Fin x) (Fin y) = (x = y)"
  by (simp add: js_eq_def)

lemma js_neq_Fin [simp]: "js_neq (Fin x) (Fin y) = (x \<noteq> y)"
  by (simp add: js_neq_def)

lemma js_le_Fin [simp]: "js_le (Fin x) (Fin y) = (x \<le> y)"
  by (auto simp: js_le_def)

lemma js_gt_Fin [simp]: "js_gt (Fin x) (Fin y) = (y < x)"
  by (simp add: js_gt_def)

lemma js_ge_Fin [simp]: "js_ge (Fin x) (Fin y) = (y \<le> x)"
  by (simp add: js_ge_def)

lemma isFinite_iff: "isFinite v = (\<exists>x. v = Fin x)"
  by (cases v) auto

lemma js_lt_not_le: "js_lt a b \<Longrightarrow> \<not> js_le b a"
  by (cases a; cases b) (auto simp: js_le_def js_eq_def)

subsection \<open>The exponential function within the range of the doubles\<close>

lemma exp_one_lower: "5 / 2 \<le> exp (1::real)"
  using exp_lower_Taylor_quadratic [of "1::real"] by (simp add: field_simps)

lemma exp_nat_power: "exp (real n) = exp 1 ^ n"
  using exp_of_nat_mult [of n "1::real"] by simp

lemma exp_600_upper: "exp (600::real) \<le> 2 ^ 960"
proof -
  have "exp (600::real) = exp (real 600)" by simp
  also have "\<dots> = exp 1 ^ 600" by (rule exp_nat_power)
  also have "\<dots> \<le> 3 ^ 600"
    by (rule power_mono [OF exp_le]) simp
  also have "\<dots> = (3::real) ^ (5 * 120)"
    by (rule arg_cong [where f = "\<lambda>n. 3 ^ n"]) simp
  also have "\<dots> = ((3::real) ^ 5) ^ 120" by (rule power_mult)
  also have "\<dots> \<le> ((2::real) ^ 8) ^ 120"
    by (rule power_mono) simp_all
  also have "\<dots> = (2::real) ^ (8 * 120)" by (rule power_mult [symmetric])
  also have "\<dots> = (2::real) ^ 960"
    by (rule arg_cong [where f = "\<lambda>n. 2 ^ n"]) simp
  finally show ?thesis .
qed

lemma exp_double_moderate [simp]:
  assumes "\<bar>x\<bar> \<le> 600"
  shows "exp_double x = Fin (exp x)"
proof -
  have pos: "0 < (2::real) ^ 960" by (rule zero_less_power) simp
  have up: "exp x \<le> 2 ^ 960"
    using assms exp_600_upper by (meson abs_le_D1 exp_le_cancel_iff order_trans)
  have "exp (- x) \<le> 2 ^ 960"
    using assms exp_600_upper
    by (meson abs_le_D2 exp_le_cancel_iff order_trans)
  then have "inverse (2 ^ 960) \<le> inverse (exp (- x))"
    by (rule le_imp_inverse_le) (rule exp_gt_zero)
  also have "inverse (exp (- x)) = exp x"
    by (simp only: exp_minus inverse_inverse_eq)
  finally have lo: "inverse (2 ^ 960) \<le> exp x" .
  have a: "(2::real) ^ 960 < 2 ^ 1024"
    by (rule power_strict_increasing) simp_all
  have "(2::real) ^ 960 < 2 ^ 1075"
    by (rule power_strict_increasing) simp_all
  then have "inverse ((2::real) ^ 1075) < inverse (2 ^ 960)"
    using pos by (rule less_imp_inverse_less)
  then have b: "1 / (2::real) ^ 1075 < inverse (2 ^ 960)"
    by (simp only: inverse_eq_divide)
  have n1: "\<not> exp x < 1 / 2 ^ 1075"
    using lo b by (meson less_le_trans less_irrefl less_trans)
  have n2: "\<not> 2 ^ 1024 \<le> exp x"
    using up a by (meson le_less_trans less_irrefl order_trans)
  show ?thesis
    unfolding exp_double_def using n1 n2 by (simp only: if_False)
qed

lemma exp_double_underflow:
  assumes "x \<le> - 1000"
  shows "exp_double x = Fin 0"
proof -
  have "(2::real) ^ 1075 < 2 ^ 1250"
    by (rule power_strict_increasing) simp_all
  also have "\<dots> = (2::real) ^ (5 * 250)"
    by (rule arg_cong [where f = "\<lambda>n. 2 ^ n"]) simp
  also have "\<dots> = ((2::real) ^ 5) ^ 250" by (rule power_mult)
  also have "\<dots> \<le> ((5 / 2 :: real) ^ 4) ^ 250"
    by (rule power_mono) (simp_all add: power_divide)
  also have "\<dots> = (5 / 2 :: real) ^ (4 * 250)" by (rule power_mult [symmetric])
  also have "\<dots> = (5 / 2 :: real) ^ 1000"
    by (rule arg_cong [where f = "\<lambda>n. (5 / 2) ^ n"]) simp
  also have "\<dots> \<le> exp 1 ^ 1000"
    by (rule power_mono [OF exp_one_lower]) simp
  also have "\<dots> = exp (real 1000)" by (rule exp_nat_power [symmetric])
  also have "\<dots> \<le> exp (- x)"
    using assms by simp
  finally have big: "2 ^ 1075 < exp (- x)" .
  have "0 < (2::real) ^ 1075" by (rule zero_less_power) simp
  with big have "inverse (exp (- x)) < inverse (2 ^ 1075)"
    by (rule less_imp_inverse_less)
  then have "exp x < inverse (2 ^ 1075)"
    by (simp only: exp_minus inverse_inverse_eq)
  then have "exp x < 1 / 2 ^ 1075"
    by (simp only: inverse_eq_divide)
  then show ?thesis
    unfolding exp_double_def by (simp only: if_True)
qed

lemma exp_1000_upper: "exp (1000::real) < 10 ^ 500"
proof -
  have "exp (1000::real) = exp (real 1000)" by simp
  also have "\<dots> = exp 1 ^ 1000" by (rule exp_nat_power)
  also have "\<dots> \<le> 3 ^ 1000"
    by (rule power_mono [OF exp_le]) simp
  also have "\<dots> = (3::real) ^ (2 * 500)"
    by (rule arg_cong [where f = "\<lambda>n. 3 ^ n"]) simp
  also have "\<dots> = ((3::real) ^ 2) ^ 500" by (rule power_mult)
  also have "\<dots> < (10::real) ^ 500"
    by (rule power_strict_mono) simp_all
  finally show ?thesis .
qed

subsection \<open>The constraint predicate\<close>

lemma checkConstraints_Fin:
  assumes "p_r p = Fin r" and "p_t1 p = Fin t1" and "p_t2 p = Fin t2" and "p_tau p = Fin tau"
    and "w0_or_1 p = Fin w0" and "\<bar>r * t1\<bar> \<le> 600" and "\<bar>r * t2\<bar> \<le> 600"
  shows "checkConstraints (Fin w1) (Fin w2) p
     = (0 < w1 \<and> 0 < w2 \<and> w1 < w0 * exp (r * t1) \<and> w2 < w1 * (1 - tau) * exp (r * t2))"
  using assms by (auto simp: checkConstraints_def Let_def mult.commute)

text \<open>
  C6: \<open>checkConstraints\<close> is a total boolean function: nothing is thrown. The last two
  boundaries are the numbers that the code computes, \<open>maxW1 = Math.exp(r * t1) * w0\<close>
  and \<open>maxW2 = w1 * (1 - tau) * Math.exp(r * t2)\<close>, where a missing \<open>w0\<close> counts as
  \<open>1\<close>. For all numbers, \<open>NaN\<close> and the infinities included, the predicate is false
  when \<open>w1 <= 0\<close>, \<open>w2 <= 0\<close>, \<open>w1 >= maxW1\<close> or \<open>w2 >= maxW2\<close>, and true when
  \<open>w1 > 0\<close>, \<open>w2 > 0\<close>, \<open>w1 < maxW1\<close> and \<open>w2 < maxW2\<close>.
\<close>

theorem checkConstraints_boundaries:
  "((js_le w1 (Fin 0) \<or> js_le w2 (Fin 0)
       \<or> js_ge w1 (js_mul (Math_exp (js_mul (p_r p) (p_t1 p))) (w0_or_1 p))
       \<or> js_ge w2 (js_mul (js_mul w1 (js_sub (Fin 1) (p_tau p)))
                           (Math_exp (js_mul (p_r p) (p_t2 p)))))
      \<longrightarrow> \<not> checkConstraints w1 w2 p)
   \<and> ((js_gt w1 (Fin 0) \<and> js_gt w2 (Fin 0)
        \<and> js_lt w1 (js_mul (Math_exp (js_mul (p_r p) (p_t1 p))) (w0_or_1 p))
        \<and> js_lt w2 (js_mul (js_mul w1 (js_sub (Fin 1) (p_tau p)))
                           (Math_exp (js_mul (p_r p) (p_t2 p)))))
      \<longrightarrow> checkConstraints w1 w2 p)"
proof (intro conjI impI)
  assume "js_le w1 (Fin 0) \<or> js_le w2 (Fin 0)
       \<or> js_ge w1 (js_mul (Math_exp (js_mul (p_r p) (p_t1 p))) (w0_or_1 p))
       \<or> js_ge w2 (js_mul (js_mul w1 (js_sub (Fin 1) (p_tau p)))
                           (Math_exp (js_mul (p_r p) (p_t2 p))))"
  then show "\<not> checkConstraints w1 w2 p"
    by (auto simp: checkConstraints_def Let_def)
next
  assume a: "js_gt w1 (Fin 0) \<and> js_gt w2 (Fin 0)
        \<and> js_lt w1 (js_mul (Math_exp (js_mul (p_r p) (p_t1 p))) (w0_or_1 p))
        \<and> js_lt w2 (js_mul (js_mul w1 (js_sub (Fin 1) (p_tau p)))
                           (Math_exp (js_mul (p_r p) (p_t2 p))))"
  then have "\<not> js_le w1 (Fin 0)" and "\<not> js_le w2 (Fin 0)"
    and "\<not> js_ge w1 (js_mul (Math_exp (js_mul (p_r p) (p_t1 p))) (w0_or_1 p))"
    and "\<not> js_ge w2 (js_mul (js_mul w1 (js_sub (Fin 1) (p_tau p)))
                           (Math_exp (js_mul (p_r p) (p_t2 p))))"
    by (simp_all add: js_gt_def js_ge_def js_lt_not_le)
  then show "checkConstraints w1 w2 p"
    by (simp add: checkConstraints_def Let_def)
qed

text \<open>
  On the default parameters the point \<open>(0, 1)\<close> lies on the boundary \<open>w1 <= 0\<close> and is
  refused, and the point \<open>(1, 1)\<close> lies inside the computed boundaries and is accepted.
\<close>

theorem checkConstraints_boundaries_witness:
  "js_le (Fin 0) (Fin 0)
   \<and> \<not> checkConstraints (Fin 0) (Fin 1) default_parameters
   \<and> js_gt (Fin 1) (Fin 0)
   \<and> js_lt (Fin 1) (js_mul (Math_exp (js_mul (p_r default_parameters) (p_t1 default_parameters)))
                           (w0_or_1 default_parameters))
   \<and> js_lt (Fin 1) (js_mul (js_mul (Fin 1) (js_sub (Fin 1) (p_tau default_parameters)))
                           (Math_exp (js_mul (p_r default_parameters) (p_t2 default_parameters))))
   \<and> checkConstraints (Fin 1) (Fin 1) default_parameters"
proof -
  have a: "js_le (Fin 0) (Fin 0)" by simp
  have b: "js_gt (Fin 1) (Fin 0)" by simp
  have c: "js_lt (Fin 1) (js_mul (Math_exp (js_mul (p_r default_parameters) (p_t1 default_parameters)))
                           (w0_or_1 default_parameters))"
    by (simp add: default_parameters_def w0_or_1_def)
  have d: "js_lt (Fin 1) (js_mul (js_mul (Fin 1) (js_sub (Fin 1) (p_tau default_parameters)))
                           (Math_exp (js_mul (p_r default_parameters) (p_t2 default_parameters))))"
    by (simp add: default_parameters_def)
  show ?thesis
    using a b c d
      checkConstraints_boundaries [of "Fin 0" "Fin 1" default_parameters]
      checkConstraints_boundaries [of "Fin 1" "Fin 1" default_parameters]
    by blast
qed

text \<open>
  C6 as stated, with the boundaries \<open>w0 e^(r t1)\<close> and \<open>w1 (1 - tau) e^(r t2)\<close> read as
  real numbers, fails: for \<open>r = -1\<close>, \<open>t1 = 1000\<close>, \<open>t2 = 1\<close>, \<open>tau = 0\<close> and
  \<open>w0 = 1e200\<close> the point \<open>(1e-300, 1e-301)\<close> lies strictly inside all four
  boundaries, but \<open>Math.exp(-1000)\<close> is \<open>0\<close>, so \<open>maxW1\<close> is \<open>0\<close> and the predicate
  is false.
\<close>

theorem checkConstraints_underflow_counterexample:
  "0 < (1 / 10 ^ 300 :: real) \<and> 0 < (1 / 10 ^ 301 :: real)
   \<and> (1 / 10 ^ 300 :: real) < 10 ^ 200 * exp (- 1 * 1000)
   \<and> (1 / 10 ^ 301 :: real) < 1 / 10 ^ 300 * (1 - 0) * exp (- 1 * 1)
   \<and> \<not> checkConstraints (Fin (1 / 10 ^ 300)) (Fin (1 / 10 ^ 301))
         \<lparr>p_r = Fin (- 1), p_rho = Fin 0.04, p_gamma = Fin 0.7, p_eta = Fin 1.7, p_beta = Fin 3,
          p_tau = Fin 0, p_t1 = Fin 1000, p_t2 = Fin 1, p_w0 = Some (Fin (10 ^ 200))\<rparr>"
proof -
  have aux: "\<And>a b e :: real. 0 < a \<Longrightarrow> 0 < e \<Longrightarrow> e < a * b \<Longrightarrow> 1 / a < b * (1 / e)"
    by (simp add: field_simps)
  have aux2: "\<And>a e :: real. 0 < a \<Longrightarrow> 0 < e \<Longrightarrow> e < 10 \<Longrightarrow> 1 / (10 * a) < 1 / a * (1 - 0) * (1 / e)"
    by (simp add: field_simps)
  have pa: "0 < (10::real) ^ 300" by (rule zero_less_power) simp
  have "(10::real) ^ 500 = 10 ^ (300 + 200)"
    by (rule arg_cong [where f = "\<lambda>n. 10 ^ n"]) simp
  also have "\<dots> = 10 ^ 300 * 10 ^ 200" by (rule power_add)
  finally have e5: "(10::real) ^ 500 = 10 ^ 300 * 10 ^ 200" .
  have lt: "exp (1000::real) < 10 ^ 300 * 10 ^ 200"
    using exp_1000_upper unfolding e5 .
  have e: "exp (- 1 * 1000 :: real) = 1 / exp 1000"
    by (simp add: exp_minus inverse_eq_divide)
  have c: "(1 / 10 ^ 300 :: real) < 10 ^ 200 * exp (- 1 * 1000)"
    unfolding e by (rule aux [OF pa exp_gt_zero lt])
  have "(10::real) ^ 301 = 10 ^ Suc 300"
    by (rule arg_cong [where f = "\<lambda>n. 10 ^ n"]) simp
  also have "\<dots> = 10 * 10 ^ 300" by (rule power_Suc)
  finally have e6: "(10::real) ^ 301 = 10 * 10 ^ 300" .
  have e1: "exp (- 1 * 1 :: real) = 1 / exp 1"
    by (simp add: exp_minus inverse_eq_divide)
  have l10: "exp (1::real) < 10" using exp_le by linarith
  have d: "(1 / 10 ^ 301 :: real) < 1 / 10 ^ 300 * (1 - 0) * exp (- 1 * 1)"
    unfolding e1 e6 by (rule aux2 [OF pa exp_gt_zero l10])
  have u: "exp_double (- 1000) = Fin 0"
    by (rule exp_double_underflow) simp
  have f: "\<not> checkConstraints (Fin (1 / 10 ^ 300)) (Fin (1 / 10 ^ 301))
         \<lparr>p_r = Fin (- 1), p_rho = Fin 0.04, p_gamma = Fin 0.7, p_eta = Fin 1.7, p_beta = Fin 3,
          p_tau = Fin 0, p_t1 = Fin 1000, p_t2 = Fin 1, p_w0 = Some (Fin (10 ^ 200))\<rparr>"
    by (simp add: checkConstraints_def Let_def w0_or_1_def u)
  have p1: "0 < (1 / 10 ^ 300 :: real)" by simp
  have p2: "0 < (1 / 10 ^ 301 :: real)" by simp
  show ?thesis using p1 p2 c d f by (intro conjI)
qed

subsection \<open>Period utility\<close>











subsection \<open>Lifetime utility\<close>

lemma lifetimeUtility_finite: "isFinite (lifetimeUtility r rho gamma t1 t2 beta eta tau w0 w1 w2)"
  by (auto simp: lifetimeUtility_def lifetimeUtility_try_def penalty_def Let_def
           split: sum.splits option.splits if_splits)

text \<open>
  C2: \<open>lifetimeUtility\<close> is total and its value is always a finite number; whenever the
  utility of period 1 or of period 2 is infeasible, the bequest utility is infeasible or
  not finite, or the combined total is not finite, the value is exactly \<open>-5000\<close>.
\<close>

theorem lifetimeUtility_total:
  "isFinite (lifetimeUtility r rho gamma t1 t2 beta eta tau w0 w1 w2)
   \<and> (isl (U2 r rho gamma t1 w0 w1)
      \<or> isl (U2 r rho gamma t2 (js_mul w1 (js_sub (Fin 1) tau)) w2)
      \<or> (case bequestUtility beta eta w2 of None \<Rightarrow> True | Some b \<Rightarrow> \<not> isFinite b)
      \<or> (\<exists>u1 u2 b. U2 r rho gamma t1 w0 w1 = Inr u1
            \<and> U2 r rho gamma t2 (js_mul w1 (js_sub (Fin 1) tau)) w2 = Inr u2
            \<and> bequestUtility beta eta w2 = Some b
            \<and> \<not> isFinite (js_add (js_add u1 (js_mul (Math_exp (js_mul (js_neg rho) t1)) u2)) b))
      \<longrightarrow> lifetimeUtility r rho gamma t1 t2 beta eta tau w0 w1 w2 = Fin (- 5000))"
  by (auto simp: lifetimeUtility_def lifetimeUtility_try_def penalty_def Let_def
           split: sum.splits option.splits if_splits)

text \<open>With a first period of length \<open>0\<close> the utility of period 1 is infeasible.\<close>

theorem lifetimeUtility_total_witness:
  "isl (U2 (Fin 0.06) (Fin 0.04) (Fin 0.7) (Fin 0) (Fin 1) (Fin 2))
   \<and> isFinite (lifetimeUtility (Fin 0.06) (Fin 0.04) (Fin 0.7) (Fin 0) (Fin 25) (Fin 3) (Fin 1.7)
                 (Fin 0) (Fin 1) (Fin 2) (Fin 1))
   \<and> lifetimeUtility (Fin 0.06) (Fin 0.04) (Fin 0.7) (Fin 0) (Fin 25) (Fin 3) (Fin 1.7)
                 (Fin 0) (Fin 1) (Fin 2) (Fin 1) = Fin (- 5000)"
proof -
  have "isl (U2 (Fin 0.06) (Fin 0.04) (Fin 0.7) (Fin 0) (Fin 1) (Fin 2))"
    by (simp add: U2_def)
  then show ?thesis
    using lifetimeUtility_total [of "Fin 0.06" "Fin 0.04" "Fin 0.7" "Fin 0" "Fin 25" "Fin 3"
        "Fin 1.7" "Fin 0" "Fin 1" "Fin 2" "Fin 1"]
    by blast
qed

text \<open>
  C10: for \<open>gamma == 0\<close> \<open>kappa\<close> raises its domain error, and \<open>lifetimeUtility\<close> returns
  \<open>-5000\<close> whatever the other arguments are: the error does not reach the caller.
\<close>

theorem lifetimeUtility_gamma_zero:
  "kappa r rho (Fin 0) = Inl (MathematicalError ''Gamma cannot be zero in kappa calculation'')
   \<and> lifetimeUtility r rho (Fin 0) t1 t2 beta eta tau w0 w1 w2 = Fin (- 5000)"
  by (auto simp: lifetimeUtility_def lifetimeUtility_try_def penalty_def Let_def U2_def kappa_def
           split: sum.splits option.splits if_splits)

section \<open>Properties of the grid search\<close>


lemma grid_visit_evaluations: "evaluations (grid_visit p w1 w2 acc) = Suc (evaluations acc)"
  by (simp add: grid_visit_def Let_def)

lemma fold_visit_evaluations:
  "evaluations (fold (\<lambda>j a. grid_visit p w1 (g j) a) js acc) = evaluations acc + length js"
  by (induction js arbitrary: acc) (simp_all add: grid_visit_evaluations)

lemma grid_row_evaluations: "evaluations (grid_row p ss n i acc) = evaluations acc + Suc n"
  by (simp add: grid_row_def Let_def fold_visit_evaluations del: upt_Suc)

lemma fold_row_evaluations:
  "evaluations (fold (grid_row p ss n) rows acc) = evaluations acc + length rows * Suc n"
  by (induction rows arbitrary: acc) (simp_all add: grid_row_evaluations)

lemma gridSearch_evaluations:
  "g_evaluations (gridSearch opts p ss) = (gridSteps opts + 1) * (gridSteps opts + 1)"
  by (simp add: gridSearch_def Let_def fold_row_evaluations del: upt_Suc)

lemma grid_visit_inv: "grid_inv p acc \<Longrightarrow> grid_inv p (grid_visit p w1 w2 acc)"
  by (auto simp: grid_inv_def grid_visit_def Let_def)

lemma grid_visit_keeps:
  "isFinite (bestUtility acc) \<Longrightarrow> isFinite (bestUtility (grid_visit p w1 w2 acc))"
  by (auto simp: grid_visit_def Let_def)

lemma grid_visit_found:
  assumes "grid_inv p acc" and "checkConstraints w1 w2 p"
  shows "isFinite (bestUtility (grid_visit p w1 w2 acc))"
proof -
  let ?u = "lifetimeUtility (p_r p) (p_rho p) (p_gamma p) (p_t1 p) (p_t2 p)
              (p_beta p) (p_eta p) (p_tau p) (w0_or_1 p) w1 w2"
  obtain x where u: "?u = Fin x" by (metis isFinite_iff lifetimeUtility_finite)
  show ?thesis using assms u
    by (auto simp: grid_inv_def grid_visit_def Let_def js_gt_def)
qed

lemma fold_keeps:
  assumes "\<And>y a. F a \<Longrightarrow> F (f y a)" and "F a"
  shows "F (fold f xs a)"
  using assms(2) by (induction xs arbitrary: a) (simp_all add: assms(1))

lemma fold_found:
  assumes "x \<in> set xs" and "\<And>a. I a \<Longrightarrow> F (f x a)"
    and "\<And>y a. F a \<Longrightarrow> F (f y a)" and "\<And>y a. I a \<Longrightarrow> I (f y a)" and "I a"
  shows "F (fold f xs a)"
  using assms(1,5)
proof (induction xs arbitrary: a)
  case Nil
  then show ?case by simp
next
  case (Cons y ys)
  show ?case
  proof (cases "x = y")
    case True
    have "F (f y a)" using assms(2) Cons.prems(2) True by simp
    then have "F (fold f ys (f y a))" using assms(3) by (rule fold_keeps [rotated])
    then show ?thesis by simp
  next
    case False
    with Cons.prems have "x \<in> set ys" by simp
    moreover have "I (f y a)" using assms(4) Cons.prems(2) by simp
    ultimately have "F (fold f ys (f y a))" by (rule Cons.IH)
    then show ?thesis by simp
  qed
qed

lemma grid_row_inv: "grid_inv p acc \<Longrightarrow> grid_inv p (grid_row p ss n i acc)"
  unfolding grid_row_def Let_def
  by (rule fold_keeps [where F = "grid_inv p"]) (simp_all add: grid_visit_inv)

lemma grid_row_keeps:
  "isFinite (bestUtility acc) \<Longrightarrow> isFinite (bestUtility (grid_row p ss n i acc))"
  unfolding grid_row_def Let_def
  by (rule fold_keeps [where F = "\<lambda>a. isFinite (bestUtility a)"]) (simp_all add: grid_visit_keeps)

lemma grid_row_found:
  assumes "grid_inv p acc" and "j \<le> n"
    and "checkConstraints (grid_point (w1Min ss) (w1Max ss) i n) (grid_point (w2Min ss) (w2Max ss) j n) p"
  shows "isFinite (bestUtility (grid_row p ss n i acc))"
  unfolding grid_row_def Let_def
proof (rule fold_found [where I = "grid_inv p" and x = j])
  show "j \<in> set [0..<Suc n]" using assms(2) by (simp del: upt_Suc)
  show "\<And>a. grid_inv p a \<Longrightarrow>
      isFinite (bestUtility (grid_visit p (grid_point (w1Min ss) (w1Max ss) i n)
                               (grid_point (w2Min ss) (w2Max ss) j n) a))"
    using assms(3) by (simp add: grid_visit_found)
  show "\<And>y a. isFinite (bestUtility a) \<Longrightarrow>
      isFinite (bestUtility (grid_visit p (grid_point (w1Min ss) (w1Max ss) i n)
                               (grid_point (w2Min ss) (w2Max ss) y n) a))"
    by (simp add: grid_visit_keeps)
  show "\<And>y a. grid_inv p a \<Longrightarrow>
      grid_inv p (grid_visit p (grid_point (w1Min ss) (w1Max ss) i n)
                               (grid_point (w2Min ss) (w2Max ss) y n) a)"
    by (simp add: grid_visit_inv)
  show "grid_inv p acc" by (rule assms(1))
qed

lemma gridSearch_success_if:
  assumes "i \<le> gridSteps opts" and "j \<le> gridSteps opts"
    and "checkConstraints (grid_point (w1Min ss) (w1Max ss) i (gridSteps opts))
           (grid_point (w2Min ss) (w2Max ss) j (gridSteps opts)) p"
  shows "g_success (gridSearch opts p ss)"
proof -
  let ?a0 = "\<lparr>bestW1 = centerW1 ss, bestW2 = centerW2 ss, bestUtility = NInf, evaluations = 0\<rparr>"
  have "isFinite (bestUtility (fold (grid_row p ss (gridSteps opts)) [0..<Suc (gridSteps opts)] ?a0))"
  proof (rule fold_found [where I = "grid_inv p" and x = i])
    show "i \<in> set [0..<Suc (gridSteps opts)]" using assms(1) by (simp del: upt_Suc)
    show "\<And>a. grid_inv p a \<Longrightarrow> isFinite (bestUtility (grid_row p ss (gridSteps opts) i a))"
      using assms(2,3) by (simp add: grid_row_found)
    show "\<And>y a. isFinite (bestUtility a) \<Longrightarrow> isFinite (bestUtility (grid_row p ss (gridSteps opts) y a))"
      by (rule grid_row_keeps)
    show "\<And>y a. grid_inv p a \<Longrightarrow> grid_inv p (grid_row p ss (gridSteps opts) y a)"
      by (rule grid_row_inv)
    show "grid_inv p ?a0" by (simp add: grid_inv_def)
  qed
  then show ?thesis
    by (auto simp: gridSearch_def Let_def js_gt_def isFinite_iff simp del: upt_Suc)
qed

lemma gridSearch_success_feasible:
  assumes "g_success (gridSearch opts p ss)"
  shows "checkConstraints (g_w1 (gridSearch opts p ss)) (g_w2 (gridSearch opts p ss)) p
         \<and> isFinite (g_utility (gridSearch opts p ss))
         \<and> g_utility (gridSearch opts p ss) =
             lifetimeUtility (p_r p) (p_rho p) (p_gamma p) (p_t1 p) (p_t2 p) (p_beta p)
               (p_eta p) (p_tau p) (w0_or_1 p)
               (g_w1 (gridSearch opts p ss)) (g_w2 (gridSearch opts p ss))"
proof -
  let ?a0 = "\<lparr>bestW1 = centerW1 ss, bestW2 = centerW2 ss, bestUtility = NInf, evaluations = 0\<rparr>"
  have "grid_inv p (fold (grid_row p ss (gridSteps opts)) [0..<Suc (gridSteps opts)] ?a0)"
  proof (rule fold_keeps [where F = "grid_inv p"])
    show "\<And>y a. grid_inv p a \<Longrightarrow> grid_inv p (grid_row p ss (gridSteps opts) y a)"
      by (rule grid_row_inv)
    show "grid_inv p ?a0" by (simp add: grid_inv_def)
  qed
  then show ?thesis using assms
    by (auto simp: gridSearch_def Let_def js_gt_def grid_inv_def simp del: upt_Suc)
qed

subsection \<open>The default parameters from a cold start\<close>


lemma Math_max_Fin [simp]: "Math_max (Fin a) (Fin b) = Fin (max a b)"
  by (simp add: Math_max_def max_def)

lemma Math_min_Fin [simp]: "Math_min (Fin a) (Fin b) = Fin (min a b)"
  by (simp add: Math_min_def min_def)

lemma grid_point_first:
  "0 < n \<Longrightarrow> grid_point (Fin a) (Fin b) 0 n = Fin a"
  by (simp add: grid_point_def)

lemma validate_default: "validate default_parameters"
  by (simp add: validate_def default_parameters_def range_finite_ok_def is_int_real_def js_gt_def)

lemma default_cold_space:
  assumes "lastOptimalResult s = None"
  shows "determineSearchSpace opts s default_parameters =
     \<lparr>w1Min = Fin (max 0.01 (exp (6 / 5) * 0.6 * 0.6)),
      w1Max = Fin (min (exp (6 / 5) - 0.01) (exp (6 / 5) * 0.6 * 1.4)),
      w2Min = Fin (max 0.01 (exp (6 / 5) * 0.5 * 0.6)),
      w2Max = Fin (min (exp (6 / 5) * 0.5 * 1.8) (exp (6 / 5) * 3)),
      centerW1 = Fin (exp (6 / 5) * 0.6),
      centerW2 = Fin (exp (6 / 5) * 0.5)\<rparr>"
  using assms
  by (simp add: determineSearchSpace_def search_center_def default_parameters_def w0_or_1_def Let_def)

lemma default_cold_first_sample:
  "checkConstraints (Fin (max 0.01 (exp (6 / 5) * 0.6 * 0.6))) (Fin (max 0.01 (exp (6 / 5) * 0.5 * 0.6)))
     default_parameters"
proof -
  define M :: real where "M = exp (6 / 5)"
  define E :: real where "E = exp (3 / 2)"
  have M: "1 < M" by (simp add: M_def)
  have E: "1 < E" by (simp add: E_def)
  have w1: "max 0.01 (M * 0.6 * 0.6) = M * 0.36"
    using M by (simp add: max_def)
  have w2: "max 0.01 (M * 0.5 * 0.6) = M * 0.3"
    using M by (simp add: max_def)
  have "M * 0.3 < M * 0.36 * 1" using M by simp
  also have "\<dots> < M * 0.36 * E"
    using M E by (intro mult_strict_left_mono) simp_all
  finally have c: "M * 0.3 < M * 0.36 * E" .
  have "checkConstraints (Fin (M * 0.36)) (Fin (M * 0.3)) default_parameters
     = (0 < M * 0.36 \<and> 0 < M * 0.3
        \<and> M * 0.36 < 1 * exp (0.06 * 20 :: real)
        \<and> M * 0.3 < M * 0.36 * (1 - 0) * exp (0.06 * 25 :: real))"
    by (rule checkConstraints_Fin) (simp_all add: default_parameters_def w0_or_1_def)
  moreover have "exp (0.06 * 20 :: real) = M" by (simp add: M_def)
  moreover have "exp (0.06 * 25 :: real) = E" by (simp add: E_def)
  ultimately have "checkConstraints (Fin (M * 0.36)) (Fin (M * 0.3)) default_parameters"
    using c M by simp
  then show ?thesis unfolding w1 [unfolded M_def] w2 [unfolded M_def] M_def .
qed

lemma default_cold_grid_success:
  assumes "lastOptimalResult s = None" and "0 < gridSteps opts"
  shows "g_success (gridSearch opts default_parameters (determineSearchSpace opts s default_parameters))"
proof (rule gridSearch_success_if [where i = 0 and j = 0])
  show "0 \<le> gridSteps opts" by simp
  show "0 \<le> gridSteps opts" by simp
  show "checkConstraints
     (grid_point (w1Min (determineSearchSpace opts s default_parameters))
        (w1Max (determineSearchSpace opts s default_parameters)) 0 (gridSteps opts))
     (grid_point (w2Min (determineSearchSpace opts s default_parameters))
        (w2Max (determineSearchSpace opts s default_parameters)) 0 (gridSteps opts))
     default_parameters"
    unfolding default_cold_space [OF assms(1)]
    using default_cold_first_sample assms(2) by (simp add: grid_point_first)
qed

section \<open>Properties of the cache and the warm-start slot\<close>


lemma evict_step_dom:
  assumes "dom m \<subseteq> set xs" and "xs \<noteq> []"
  shows "dom (m(last xs := None)) \<subseteq> set (butlast xs)"
proof
  fix k assume k: "k \<in> dom (m(last xs := None))"
  then have "k \<noteq> last xs" and "k \<in> set xs" using assms(1) by (auto split: if_splits)
  moreover have "xs = butlast xs @ [last xs]" using assms(2) by simp
  ultimately show "k \<in> set (butlast xs)"
    by (metis Un_iff empty_iff empty_set set_ConsD set_append)
qed

lemma evictWhileFull_Some:
  assumes "evictWhileFull opts s = Some s'"
  shows "(dom (cache s) \<subseteq> set (cacheOrder s) \<longrightarrow> dom (cache s') \<subseteq> set (cacheOrder s'))
         \<and> length (cacheOrder s') < cacheSize opts
         \<and> length (cacheOrder s') \<le> length (cacheOrder s)
         \<and> lastOptimalResult s' = lastOptimalResult s
         \<and> lastParameters s' = lastParameters s"
proof (rule evictWhileFull.raw_induct
    [where P = "\<lambda>opts s s'.
         (dom (cache s) \<subseteq> set (cacheOrder s) \<longrightarrow> dom (cache s') \<subseteq> set (cacheOrder s'))
         \<and> length (cacheOrder s') < cacheSize opts
         \<and> length (cacheOrder s') \<le> length (cacheOrder s)
         \<and> lastOptimalResult s' = lastOptimalResult s
         \<and> lastParameters s' = lastParameters s", OF _ assms])
  fix f :: "options \<Rightarrow> service_state \<Rightarrow> service_state option"
  fix opts s s'
  assume 1: "\<And>opts s y. f opts s = Some y \<Longrightarrow>
         (dom (cache s) \<subseteq> set (cacheOrder s) \<longrightarrow> dom (cache y) \<subseteq> set (cacheOrder y))
         \<and> length (cacheOrder y) < cacheSize opts
         \<and> length (cacheOrder y) \<le> length (cacheOrder s)
         \<and> lastOptimalResult y = lastOptimalResult s
         \<and> lastParameters y = lastParameters s"
    "(if cacheSize opts \<le> length (cacheOrder s)
       then (case cacheOrder s of
               [] \<Rightarrow> f opts s
             | k # ks \<Rightarrow>
                 f opts
                   (s\<lparr>cacheOrder := butlast (cacheOrder s),
                      cache := (cache s)(last (cacheOrder s) := None)\<rparr>))
       else Some s) = Some s'"
  show "(dom (cache s) \<subseteq> set (cacheOrder s) \<longrightarrow> dom (cache s') \<subseteq> set (cacheOrder s'))
         \<and> length (cacheOrder s') < cacheSize opts
         \<and> length (cacheOrder s') \<le> length (cacheOrder s)
         \<and> lastOptimalResult s' = lastOptimalResult s
         \<and> lastParameters s' = lastParameters s"
  proof (cases "cacheSize opts \<le> length (cacheOrder s)")
    case False
    with 1(2) show ?thesis by simp
  next
    case True
    show ?thesis
    proof (cases "cacheOrder s")
      case Nil
      with True 1(2) have "f opts s = Some s'" by simp
      from 1(1) [OF this] show ?thesis .
    next
      case (Cons k ks)
      let ?s1 = "s\<lparr>cacheOrder := butlast (cacheOrder s),
                     cache := (cache s)(last (cacheOrder s) := None)\<rparr>"
      from Cons True 1(2) have "f opts ?s1 = Some s'" by simp
      from 1(1) [OF this] have ih:
        "(dom (cache ?s1) \<subseteq> set (cacheOrder ?s1) \<longrightarrow> dom (cache s') \<subseteq> set (cacheOrder s'))
         \<and> length (cacheOrder s') < cacheSize opts
         \<and> length (cacheOrder s') \<le> length (cacheOrder ?s1)
         \<and> lastOptimalResult s' = lastOptimalResult ?s1
         \<and> lastParameters s' = lastParameters ?s1" .
      have ne: "cacheOrder s \<noteq> []" using Cons by simp
      have "dom (cache s) \<subseteq> set (cacheOrder s) \<Longrightarrow> dom (cache ?s1) \<subseteq> set (cacheOrder ?s1)"
        using evict_step_dom [OF _ ne] by simp
      with ih show ?thesis by auto
    qed
  qed
qed

lemma evictWhileFull_total:
  assumes "0 < cacheSize opts"
  shows "\<exists>s'. evictWhileFull opts s = Some s'"
proof (induction "length (cacheOrder s)" arbitrary: s rule: less_induct)
  case less
  show ?case
  proof (cases "cacheSize opts \<le> length (cacheOrder s)")
    case False
    then show ?thesis by (subst evictWhileFull.simps) simp
  next
    case True
    then obtain k ks where kk: "cacheOrder s = k # ks"
      using assms by (cases "cacheOrder s") auto
    let ?s1 = "s\<lparr>cacheOrder := butlast (cacheOrder s),
                   cache := (cache s)(last (cacheOrder s) := None)\<rparr>"
    have "length (cacheOrder ?s1) < length (cacheOrder s)" using kk by simp
    from less [OF this] obtain s' where "evictWhileFull opts ?s1 = Some s'" by blast
    then show ?thesis using True kk by (subst evictWhileFull.simps) simp
  qed
qed

lemma evictWhileFull_not_full:
  "length (cacheOrder s) < cacheSize opts \<Longrightarrow> evictWhileFull opts s = Some s"
  by (subst evictWhileFull.simps) simp

lemma addToCache_inv:
  assumes "addToCache opts s key res now = Some s'" and "cache_inv opts s"
  shows "cache_inv opts s'"
proof -
  from assms(1) obtain s1 where e: "evictWhileFull opts s = Some s1"
    and s': "s' = s1\<lparr>cache := (cache s1)(key \<mapsto> \<lparr>entry_result = res, entry_timestamp = now\<rparr>),
                     cacheOrder := key # cacheOrder s1\<rparr>"
    by (auto simp: addToCache_def split: option.splits)
  from evictWhileFull_Some [OF e] assms(2) show ?thesis
    unfolding s' cache_inv_def by auto
qed

lemma getFromCache_inv:
  assumes "getFromCache opts s key now = (r, s')" and "cache_inv opts s"
  shows "cache_inv opts s'"
proof (cases "cache s key")
  case None
  with assms show ?thesis by (simp add: getFromCache_def)
next
  case (Some e)
  then have mem: "key \<in> set (cacheOrder s)" using assms(2) by (auto simp: cache_inv_def)
  then have len: "length (remove1 key (cacheOrder s)) = length (cacheOrder s) - 1"
    by (simp add: length_remove1)
  have pos: "0 < length (cacheOrder s)" using mem by (cases "cacheOrder s") auto
  show ?thesis
  proof (cases "now - entry_timestamp e > cacheTTL opts")
    case True
    with Some assms(1) have s': "s' = s\<lparr>cache := (cache s)(key := None)\<rparr>"
      by (auto simp: getFromCache_def)
    show ?thesis using assms(2) unfolding s' cache_inv_def
      by (auto split: if_splits)
  next
    case False
    with Some assms(1) have s': "s' = s\<lparr>cacheOrder := key # remove1 key (cacheOrder s)\<rparr>"
      by (auto simp: getFromCache_def)
    have sub: "dom (cache s) \<subseteq> set (key # remove1 key (cacheOrder s))"
    proof
      fix x assume "x \<in> dom (cache s)"
      then have "x \<in> set (cacheOrder s)" using assms(2) by (auto simp: cache_inv_def)
      then show "x \<in> set (key # remove1 key (cacheOrder s))"
        by (cases "x = key") simp_all
    qed
    show ?thesis using assms(2) len pos sub unfolding s' cache_inv_def
      by simp
  qed
qed


lemma findOptimalWealth_cases:
  assumes "findOptimalWealth uncmin opts s p now_get now_put = Some (outcome, s')"
  obtains
    (invalid) "\<not> validate p" and "outcome = Inl ValidationError" and "s' = s"
  | (hit) cached where "validate p"
      and "getFromCache opts s (generateCacheKey p) now_get = (Some cached, s')"
      and "outcome = Inr (with_cacheHit cached True)"
  | (failed) "validate p"
      and "getFromCache opts s (generateCacheKey p) now_get = (None, s')"
      and "isl (performOptimization uncmin opts s' p)"
      and "isl outcome"
  | (computed) s1 res s2 where "validate p"
      and "getFromCache opts s (generateCacheKey p) now_get = (None, s1)"
      and "performOptimization uncmin opts s1 p = Inr res"
      and "addToCache opts s1 (generateCacheKey p) res now_put = Some s2"
      and "outcome = Inr (with_cacheHit res False)"
      and "s' = updateWarmStart s2 p res"
proof (cases "validate p")
  case False
  with assms invalid show ?thesis by (simp add: findOptimalWealth_def)
next
  case True
  obtain c s1 where g: "getFromCache opts s (generateCacheKey p) now_get = (c, s1)"
    by (cases "getFromCache opts s (generateCacheKey p) now_get") auto
  show ?thesis
  proof (cases c)
    case (Some cached)
    with assms True g hit show ?thesis by (simp add: findOptimalWealth_def)
  next
    case None
    show ?thesis
    proof (cases "performOptimization uncmin opts s1 p")
      case (Inl e)
      with assms True g None failed show ?thesis
        by (auto simp: findOptimalWealth_def findOptimalWealth_try_def)
    next
      case (Inr res)
      with assms True g None computed show ?thesis
        by (auto simp: findOptimalWealth_def findOptimalWealth_try_def split: option.splits)
    qed
  qed
qed

lemma findOptimalWealth_inv:
  assumes "findOptimalWealth uncmin opts s p now_get now_put = Some (outcome, s')"
    and "cache_inv opts s"
  shows "cache_inv opts s'"
  using assms(1)
proof (cases rule: findOptimalWealth_cases)
  case invalid
  with assms(2) show ?thesis by simp
next
  case (hit cached)
  with assms(2) show ?thesis using getFromCache_inv by blast
next
  case failed
  with assms(2) show ?thesis using getFromCache_inv by blast
next
  case (computed s1 res s2)
  have "cache_inv opts s1" using computed(2) assms(2) by (rule getFromCache_inv)
  with computed(4) have "cache_inv opts s2" by (rule addToCache_inv)
  then show ?thesis unfolding computed(6) by (simp add: updateWarmStart_def cache_inv_def)
qed

lemma reachable_cache_inv: "reachable uncmin opts s \<Longrightarrow> cache_inv opts s"
proof (induction rule: reachable.induct)
  case reach_init
  show ?case by (simp add: cache_inv_def initial_state_def)
next
  case (reach_find s p now_get now_put outcome s')
  then show ?case using findOptimalWealth_inv by blast
next
  case (reach_clear s)
  then show ?case by (simp add: cache_inv_def clearCache_def)
next
  case (reach_reset s)
  then show ?case by (simp add: cache_inv_def resetWarmStart_def)
qed

text \<open>
  C9: in every state that a sequence of calls of \<open>findOptimalWealth\<close>, \<open>clearCache\<close>
  and \<open>resetWarmStart\<close> reaches, the cache map has at most \<open>cacheSize\<close> entries; it
  never has more entries than the order list, which may keep the key of an expired entry.
\<close>

theorem cache_capacity_bound:
  "reachable uncmin opts s \<Longrightarrow>
     finite (dom (cache s)) \<and> card (dom (cache s)) \<le> cacheSize opts
     \<and> card (dom (cache s)) \<le> length (cacheOrder s)"
proof -
  assume "reachable uncmin opts s"
  then have inv: "cache_inv opts s" by (rule reachable_cache_inv)
  then have sub: "dom (cache s) \<subseteq> set (cacheOrder s)" by (simp add: cache_inv_def)
  then have fin: "finite (dom (cache s))" by (rule finite_subset) simp
  have "card (dom (cache s)) \<le> card (set (cacheOrder s))"
    using sub by (simp add: card_mono)
  also have "\<dots> \<le> length (cacheOrder s)" by (rule card_length)
  finally have c: "card (dom (cache s)) \<le> length (cacheOrder s)" .
  with inv fin show ?thesis by (simp add: cache_inv_def)
qed


lemma addToCache_entry:
  assumes "addToCache opts s key res now = Some s'"
  shows "cache s' key = Some \<lparr>entry_result = res, entry_timestamp = now\<rparr>
         \<and> lastOptimalResult s' = lastOptimalResult s \<and> lastParameters s' = lastParameters s"
proof -
  from assms obtain s1 where e: "evictWhileFull opts s = Some s1"
    and s': "s' = s1\<lparr>cache := (cache s1)(key \<mapsto> \<lparr>entry_result = res, entry_timestamp = now\<rparr>),
                     cacheOrder := key # cacheOrder s1\<rparr>"
    by (auto simp: addToCache_def split: option.splits)
  from evictWhileFull_Some [OF e] show ?thesis unfolding s' by simp
qed

lemma addToCache_total:
  "0 < cacheSize opts \<Longrightarrow> \<exists>s'. addToCache opts s key res now = Some s'"
  using evictWhileFull_total [of opts s] by (auto simp: addToCache_def)

lemma getFromCache_slot:
  "getFromCache opts s key now = (c, s') \<Longrightarrow>
     lastOptimalResult s' = lastOptimalResult s \<and> lastParameters s' = lastParameters s"
  by (auto simp: getFromCache_def split: option.splits if_splits)

lemma default_cold_solve:
  assumes "lastOptimalResult s = None"
  shows "\<exists>res. performOptimization uncmin default_options s default_parameters = Inr res"
proof -
  have "0 < gridSteps default_options" by (simp add: default_options_def)
  from default_cold_grid_success [OF assms this, of ]
  have "\<exists>res. performMainThreadOptimization uncmin default_options s default_parameters = Inr res"
    by (simp add: performMainThreadOptimization_def Let_def)
  then show ?thesis
    by (auto simp: performOptimization_def Let_def default_options_def)
qed

lemma default_first_call:
  "\<exists>res s1. findOptimalWealth uncmin default_options initial_state default_parameters now_get now_put
      = Some (Inr res, s1) \<and> \<not> res_cacheHit res"
proof -
  have g: "getFromCache default_options initial_state (generateCacheKey default_parameters) now_get
      = (None, initial_state)"
    by (simp add: getFromCache_def initial_state_def)
  have "lastOptimalResult initial_state = None" by (simp add: initial_state_def)
  from default_cold_solve [OF this] obtain res where
    r: "performOptimization uncmin default_options initial_state default_parameters = Inr res"
    by blast
  have "0 < cacheSize default_options" by (simp add: default_options_def)
  from addToCache_total [OF this] obtain s2 where
    a: "addToCache default_options initial_state (generateCacheKey default_parameters) res now_put = Some s2"
    by blast
  show ?thesis
    using g r a validate_default
    by (simp add: findOptimalWealth_def findOptimalWealth_try_def with_cacheHit_def)
qed

text \<open>
  After the first call on the default parameters the state is reachable and holds one
  entry.
\<close>

theorem cache_capacity_bound_witness:
  "\<exists>res s1. findOptimalWealth uncmin_throws default_options initial_state default_parameters 0 0
       = Some (Inr res, s1)
     \<and> reachable uncmin_throws default_options s1
     \<and> finite (dom (cache s1)) \<and> card (dom (cache s1)) \<le> cacheSize default_options
     \<and> card (dom (cache s1)) \<le> length (cacheOrder s1)"
proof -
  obtain res s1 where f: "findOptimalWealth uncmin_throws default_options initial_state
      default_parameters 0 0 = Some (Inr res, s1)"
    using default_first_call by blast
  have r: "reachable uncmin_throws default_options s1"
    using reach_find [OF reach_init f] .
  show ?thesis using f r cache_capacity_bound [OF r] by blast
qed

text \<open>
  C8: a successful call that is answered from the cache reports \<open>cacheHit\<close> and leaves
  \<open>lastOptimalResult\<close> and \<open>lastParameters\<close> as they were; a successful call that is
  not answered from the cache overwrites them with the new \<open>(w1, w2)\<close> and the
  parameters of the call.
\<close>

theorem warm_start_update:
  "findOptimalWealth uncmin opts s p now_get now_put = Some (Inr res, s') \<Longrightarrow>
     (fst (getFromCache opts s (generateCacheKey p) now_get) \<noteq> None \<longrightarrow>
        res_cacheHit res
        \<and> lastOptimalResult s' = lastOptimalResult s \<and> lastParameters s' = lastParameters s)
     \<and> (fst (getFromCache opts s (generateCacheKey p) now_get) = None \<longrightarrow>
        \<not> res_cacheHit res
        \<and> lastOptimalResult s' = Some (res_w1 res, res_w2 res) \<and> lastParameters s' = Some p)"
proof -
  assume a: "findOptimalWealth uncmin opts s p now_get now_put = Some (Inr res, s')"
  then show ?thesis
  proof (cases rule: findOptimalWealth_cases)
    case invalid
    then show ?thesis by simp
  next
    case (hit cached)
    then show ?thesis using getFromCache_slot [OF hit(2)] by (simp add: with_cacheHit_def)
  next
    case failed
    then show ?thesis by simp
  next
    case (computed s1 res0 s2)
    from getFromCache_slot [OF computed(2)] addToCache_entry [OF computed(4)] computed
    show ?thesis by (simp add: with_cacheHit_def updateWarmStart_def)
  qed
qed


lemma after_success_entry:
  assumes "findOptimalWealth uncmin opts s p now_get now_put = Some (Inr res, s1)"
  shows "validate p \<and> (\<exists>e. cache s1 (generateCacheKey p) = Some e
           \<and> with_cacheHit (entry_result e) (res_cacheHit res) = res
           \<and> (\<not> res_cacheHit res \<longrightarrow> entry_timestamp e = now_put))"
  using assms
proof (cases rule: findOptimalWealth_cases)
  case invalid
  then show ?thesis by simp
next
  case (hit cached)
  then show ?thesis
    by (auto simp: getFromCache_def with_cacheHit_def split: option.splits if_splits)
next
  case failed
  then show ?thesis by simp
next
  case (computed s0 res0 s2)
  from addToCache_entry [OF computed(4)] computed show ?thesis
    by (simp add: with_cacheHit_def updateWarmStart_def)
qed

lemma hit_call:
  assumes "validate p" and "cache s (generateCacheKey p) = Some e"
    and "now_get - entry_timestamp e \<le> cacheTTL opts"
  shows "findOptimalWealth uncmin opts s p now_get now_put =
     Some (Inr (with_cacheHit (entry_result e) True),
           s\<lparr>cacheOrder := generateCacheKey p # remove1 (generateCacheKey p) (cacheOrder s)\<rparr>)"
  using assms by (simp add: findOptimalWealth_def getFromCache_def Let_def)

lemma expired_call:
  assumes "validate p" and "cache s (generateCacheKey p) = Some e"
    and "now_get - entry_timestamp e > cacheTTL opts"
  shows "getFromCache opts s (generateCacheKey p) now_get
           = (None, s\<lparr>cache := (cache s)(generateCacheKey p := None)\<rparr>)
     \<and> findOptimalWealth uncmin opts s p now_get now_put =
         findOptimalWealth_try uncmin opts (s\<lparr>cache := (cache s)(generateCacheKey p := None)\<rparr>) p
           (generateCacheKey p) now_put"
  using assms by (simp add: findOptimalWealth_def getFromCache_def Let_def)

text \<open>
  C5: after a successful call the cache holds an entry for the parameters (stamped with
  the time of insertion when the call computed it). A second call with the same
  parameters no more than the time to live after that stamp returns the same result with
  \<open>cacheHit\<close> true; later than that, the read deletes the entry and reports a miss,
  and the call runs the optimization again on the state without the entry.
\<close>

theorem cache_hit_then_expiry:
  assumes "findOptimalWealth uncmin opts s p now_get1 now_put1 = Some (Inr res1, s1)"
  shows "\<exists>e. cache s1 (generateCacheKey p) = Some e
     \<and> (\<not> res_cacheHit res1 \<longrightarrow> entry_timestamp e = now_put1)
     \<and> (now_get2 - entry_timestamp e \<le> cacheTTL opts \<longrightarrow>
          (\<exists>s2. findOptimalWealth uncmin opts s1 p now_get2 now_put2
                  = Some (Inr (res1\<lparr>res_cacheHit := True\<rparr>), s2)))
     \<and> (now_get2 - entry_timestamp e > cacheTTL opts \<longrightarrow>
          getFromCache opts s1 (generateCacheKey p) now_get2
             = (None, s1\<lparr>cache := (cache s1)(generateCacheKey p := None)\<rparr>)
          \<and> findOptimalWealth uncmin opts s1 p now_get2 now_put2
             = findOptimalWealth_try uncmin opts
                 (s1\<lparr>cache := (cache s1)(generateCacheKey p := None)\<rparr>) p
                 (generateCacheKey p) now_put2)"
proof -
  from after_success_entry [OF assms] obtain e where v: "validate p"
    and e: "cache s1 (generateCacheKey p) = Some e"
    and r: "with_cacheHit (entry_result e) (res_cacheHit res1) = res1"
    and t: "\<not> res_cacheHit res1 \<longrightarrow> entry_timestamp e = now_put1"
    by blast
  have same: "with_cacheHit (entry_result e) True = res1\<lparr>res_cacheHit := True\<rparr>"
    using r by (cases res1) (auto simp: with_cacheHit_def)
  show ?thesis
    using e t hit_call [OF v e, of now_get2 opts uncmin now_put2]
      expired_call [OF v e, of opts now_get2 uncmin now_put2] same
    by auto
qed

text \<open>
  C4, as the code has it: the grid search evaluates \<open>(gridSteps + 1)\<^sup>2\<close> samples
  whatever the state is, so a warm start uses the configured step count too; what a warm
  start changes is the box, which is centred on the hint with radius \<open>0.2\<close>.
\<close>

theorem grid_steps_not_reduced:
  "g_evaluations (gridSearch opts p (determineSearchSpace opts s p))
     = (gridSteps opts + 1) * (gridSteps opts + 1)
   \<and> (lastOptimalResult s = Some (hintW1, hintW2) \<and> warmStartEnabled opts
        \<and> isParameterSimilar p (lastParameters s) \<and> checkConstraints hintW1 hintW2 p
      \<longrightarrow> search_center opts s p = (hintW1, hintW2, Fin 0.2))"
  by (simp add: gridSearch_evaluations search_center_def Let_def)

lemma warm_state_similar: "isParameterSimilar default_parameters (lastParameters warm_state)"
  by (simp add: isParameterSimilar_def warm_state_def default_parameters_def js_gt_def)

lemma warm_state_feasible: "checkConstraints (Fin 1) (Fin 1) default_parameters"
proof -
  have "checkConstraints (Fin 1) (Fin 1) default_parameters
     = ((0::real) < 1 \<and> (0::real) < 1 \<and> 1 < 1 * exp (0.06 * 20 :: real)
        \<and> 1 < 1 * (1 - 0) * exp (0.06 * 25 :: real))"
    by (rule checkConstraints_Fin) (simp_all add: default_parameters_def w0_or_1_def)
  then show ?thesis by simp
qed

text \<open>
  C4 as stated fails: from a state whose hint satisfies the three conditions of a warm
  start the search is centred on the hint and still takes \<open>101 * 101\<close> samples, as
  many as from a cold start.
\<close>

theorem grid_steps_counterexample:
  "lastOptimalResult warm_state = Some (Fin 1, Fin 1)
   \<and> isParameterSimilar default_parameters (lastParameters warm_state)
   \<and> checkConstraints (Fin 1) (Fin 1) default_parameters
   \<and> centerW1 (determineSearchSpace default_options warm_state default_parameters) = Fin 1
   \<and> centerW2 (determineSearchSpace default_options warm_state default_parameters) = Fin 1
   \<and> g_evaluations (gridSearch default_options default_parameters
        (determineSearchSpace default_options warm_state default_parameters)) = 101 * 101
   \<and> g_evaluations (gridSearch default_options default_parameters
        (determineSearchSpace default_options initial_state default_parameters)) = 101 * 101"
proof -
  have c: "search_center default_options warm_state default_parameters = (Fin 1, Fin 1, Fin 0.2)"
    using warm_state_similar warm_state_feasible
    by (simp add: search_center_def Let_def warm_state_def default_options_def)
  have n: "gridSteps default_options = 100" by (simp add: default_options_def)
  show ?thesis
    using warm_state_similar warm_state_feasible
    by (simp add: gridSearch_evaluations n determineSearchSpace_def c Let_def)
       (simp add: warm_state_def)
qed

text \<open>The warm state above satisfies the conditions of the statement.\<close>

theorem grid_steps_not_reduced_witness:
  "lastOptimalResult warm_state = Some (Fin 1, Fin 1) \<and> warmStartEnabled default_options
   \<and> isParameterSimilar default_parameters (lastParameters warm_state)
   \<and> checkConstraints (Fin 1) (Fin 1) default_parameters
   \<and> search_center default_options warm_state default_parameters = (Fin 1, Fin 1, Fin 0.2)
   \<and> g_evaluations (gridSearch default_options default_parameters
        (determineSearchSpace default_options warm_state default_parameters)) = 101 * 101"
proof -
  have a: "lastOptimalResult warm_state = Some (Fin 1, Fin 1)" by (simp add: warm_state_def)
  have b: "warmStartEnabled default_options" by (simp add: default_options_def)
  have n: "(gridSteps default_options + 1) * (gridSteps default_options + 1) = 101 * 101"
    by (simp add: default_options_def)
  show ?thesis
    using a b warm_state_similar warm_state_feasible n
      grid_steps_not_reduced [of default_options default_parameters warm_state "Fin 1" "Fin 1"]
    by simp
qed


lemma default_second_call_hit:
  assumes "findOptimalWealth uncmin default_options initial_state default_parameters 0 0
             = Some (Inr res, s1)"
  shows "\<exists>s2. findOptimalWealth uncmin default_options s1 default_parameters 1000 1000
             = Some (Inr (with_cacheHit (opt_result.truncate res) True), s2)
           \<and> fst (getFromCache default_options s1 (generateCacheKey default_parameters) 1000) \<noteq> None"
proof -
  have g: "getFromCache default_options initial_state (generateCacheKey default_parameters) 0
      = (None, initial_state)"
    by (simp add: getFromCache_def initial_state_def)
  have nh: "\<not> res_cacheHit res"
    using assms g
    by (auto simp: findOptimalWealth_def findOptimalWealth_try_def with_cacheHit_def Let_def
             split: sum.splits option.splits if_splits)
  from after_success_entry [OF assms] nh obtain e where v: "validate default_parameters"
    and e: "cache s1 (generateCacheKey default_parameters) = Some e"
    and r: "with_cacheHit (entry_result e) False = res"
    and t: "entry_timestamp e = 0"
    by auto
  have le: "1000 - entry_timestamp e \<le> cacheTTL default_options"
    by (simp add: t default_options_def)
  have tr: "opt_result.truncate res = entry_result e"
    using r by (cases "entry_result e") (auto simp: with_cacheHit_def opt_result.truncate_def)
  show ?thesis
    using hit_call [OF v e le, of uncmin 1000] e le
    by (simp add: tr getFromCache_def)
qed

text \<open>
  A first call on the default parameters computes the result and fills the slot; a second
  call one second later is answered from the cache and leaves the slot alone.
\<close>

theorem warm_start_update_witness:
  "\<exists>res s1 res2 s2.
     findOptimalWealth uncmin_throws default_options initial_state default_parameters 0 0
       = Some (Inr res, s1)
     \<and> fst (getFromCache default_options initial_state (generateCacheKey default_parameters) 0) = None
     \<and> \<not> res_cacheHit res
     \<and> lastOptimalResult s1 = Some (res_w1 res, res_w2 res)
     \<and> lastParameters s1 = Some default_parameters
     \<and> findOptimalWealth uncmin_throws default_options s1 default_parameters 1000 1000
       = Some (Inr res2, s2)
     \<and> fst (getFromCache default_options s1 (generateCacheKey default_parameters) 1000) \<noteq> None
     \<and> res_cacheHit res2
     \<and> lastOptimalResult s2 = lastOptimalResult s1
     \<and> lastParameters s2 = lastParameters s1"
proof -
  obtain res s1 where f: "findOptimalWealth uncmin_throws default_options initial_state
      default_parameters 0 0 = Some (Inr res, s1)"
    using default_first_call by blast
  have g: "fst (getFromCache default_options initial_state (generateCacheKey default_parameters) 0) = None"
    by (simp add: getFromCache_def initial_state_def)
  from default_second_call_hit [OF f] obtain s2 where
    f2: "findOptimalWealth uncmin_throws default_options s1 default_parameters 1000 1000
           = Some (Inr (with_cacheHit (opt_result.truncate res) True), s2)"
    and g2: "fst (getFromCache default_options s1 (generateCacheKey default_parameters) 1000) \<noteq> None"
    by blast
  show ?thesis
    using f g f2 g2 warm_start_update [OF f] warm_start_update [OF f2]
    by blast
qed

text \<open>
  After a first call at time \<open>0\<close>, a call at \<open>1000\<close> ms is a hit and a call at
  \<open>60001\<close> ms finds the entry expired.
\<close>

theorem cache_hit_then_expiry_witness:
  "\<exists>res1 s1 e s2.
     findOptimalWealth uncmin_throws default_options initial_state default_parameters 0 0
       = Some (Inr res1, s1)
     \<and> cache s1 (generateCacheKey default_parameters) = Some e
     \<and> \<not> res_cacheHit res1 \<and> entry_timestamp e = 0
     \<and> 1000 - entry_timestamp e \<le> cacheTTL default_options
     \<and> findOptimalWealth uncmin_throws default_options s1 default_parameters 1000 1000
          = Some (Inr (res1\<lparr>res_cacheHit := True\<rparr>), s2)
     \<and> 60001 - entry_timestamp e > cacheTTL default_options
     \<and> getFromCache default_options s1 (generateCacheKey default_parameters) 60001
          = (None, s1\<lparr>cache := (cache s1)(generateCacheKey default_parameters := None)\<rparr>)
     \<and> findOptimalWealth uncmin_throws default_options s1 default_parameters 60001 60001
          = findOptimalWealth_try uncmin_throws default_options
              (s1\<lparr>cache := (cache s1)(generateCacheKey default_parameters := None)\<rparr>)
              default_parameters (generateCacheKey default_parameters) 60001"
proof -
  obtain res1 s1 where f: "findOptimalWealth uncmin_throws default_options initial_state
      default_parameters 0 0 = Some (Inr res1, s1)" and nh: "\<not> res_cacheHit res1"
    using default_first_call by blast
  from cache_hit_then_expiry [OF f, of 1000 1000] obtain e s2 where
    e: "cache s1 (generateCacheKey default_parameters) = Some e"
    and t: "\<not> res_cacheHit res1 \<longrightarrow> entry_timestamp e = 0"
    and h: "1000 - entry_timestamp e \<le> cacheTTL default_options \<longrightarrow>
          findOptimalWealth uncmin_throws default_options s1 default_parameters 1000 1000
             = Some (Inr (res1\<lparr>res_cacheHit := True\<rparr>), s2)"
    by (auto simp: nh default_options_def)
  have t0: "entry_timestamp e = 0" using t nh by simp
  have le: "1000 - entry_timestamp e \<le> cacheTTL default_options"
    by (simp add: t0 default_options_def)
  have gt: "60001 - entry_timestamp e > cacheTTL default_options"
    by (simp add: t0 default_options_def)
  from cache_hit_then_expiry [OF f, of 60001 60001] e gt
  have x: "getFromCache default_options s1 (generateCacheKey default_parameters) 60001
          = (None, s1\<lparr>cache := (cache s1)(generateCacheKey default_parameters := None)\<rparr>)
     \<and> findOptimalWealth uncmin_throws default_options s1 default_parameters 60001 60001
          = findOptimalWealth_try uncmin_throws default_options
              (s1\<lparr>cache := (cache s1)(generateCacheKey default_parameters := None)\<rparr>)
              default_parameters (generateCacheKey default_parameters) 60001"
    by auto
  show ?thesis using f e nh t0 le h gt x by blast
qed

section \<open>Properties of the refinement\<close>

lemma numericalRefinement_feasible:
  assumes "checkConstraints (g_w1 g) (g_w2 g) p" and "isFinite (g_utility g)"
  shows "checkConstraints (ph_w1 (numericalRefinement uncmin opts p g))
           (ph_w2 (numericalRefinement uncmin opts p g)) p
         \<and> isFinite (ph_utility (numericalRefinement uncmin opts p g))"
  using assms
  by (auto simp: numericalRefinement_def grid_as_phase_def isFinite_iff
           split: uncmin_outcome.splits option.splits prod.splits)

text \<open>
  C3: when the grid search succeeds, the solve returns a point that satisfies
  \<open>checkConstraints\<close>, and its utility is not below the utility of the grid search.
  This holds because no refined point ever replaces the grid result: the call of
  \<open>numeric.uncmin\<close> throws, \<open>numericalRefinement\<close> catches the error and falls back to
  the grid-search result, which the solve returns unchanged. The code has one test for
  a refined point, \<open>checkConstraints\<close> on a result whose \<open>f\<close> is finite and below
  \<open>1e9\<close>; with any minimiser at all the returned point satisfies \<open>checkConstraints\<close>
  and the returned utility is finite.
\<close>

theorem refinement_never_regresses:
  assumes "g_success (gridSearch opts p (determineSearchSpace opts s p))"
  shows "(\<exists>res. performMainThreadOptimization uncmin_throws opts s p = Inr res
       \<and> checkConstraints (res_w1 res) (res_w2 res) p
       \<and> js_ge (res_utility res) (g_utility (gridSearch opts p (determineSearchSpace opts s p)))
       \<and> res_w1 res = g_w1 (gridSearch opts p (determineSearchSpace opts s p))
       \<and> res_w2 res = g_w2 (gridSearch opts p (determineSearchSpace opts s p))
       \<and> res_utility res = g_utility (gridSearch opts p (determineSearchSpace opts s p)))
     \<and> (\<exists>res. performMainThreadOptimization uncmin opts s p = Inr res
       \<and> checkConstraints (res_w1 res) (res_w2 res) p
       \<and> isFinite (res_utility res))"
proof -
  define G where "G = gridSearch opts p (determineSearchSpace opts s p)"
  have succ: "g_success G" using assms by (simp add: G_def)
  have feas: "checkConstraints (g_w1 G) (g_w2 G) p" and fin: "isFinite (g_utility G)"
    using gridSearch_success_feasible [OF assms] lifetimeUtility_finite
    by (simp_all add: G_def)
  from fin obtain x where x: "g_utility G = Fin x" by (auto simp: isFinite_iff)
  have run: "\<And>um. performMainThreadOptimization um opts s p =
      Inr \<lparr>res_w1 = ph_w1 (numericalRefinement um opts p G),
           res_w2 = ph_w2 (numericalRefinement um opts p G),
           res_utility = ph_utility (numericalRefinement um opts p G),
           res_iterations = or_zero (ph_iterations (numericalRefinement um opts p G)),
           res_convergence = or_string (ph_convergence (numericalRefinement um opts p G)) ''grid_only'',
           res_method = or_string (Some (ph_method (numericalRefinement um opts p G))) ''hybrid''\<rparr>"
    using succ by (simp add: performMainThreadOptimization_def Let_def G_def)
  have keep: "numericalRefinement uncmin_throws opts p G = grid_as_phase G"
    by (simp add: numericalRefinement_def uncmin_throws_def)
  have a: "\<exists>res. performMainThreadOptimization uncmin_throws opts s p = Inr res
       \<and> checkConstraints (res_w1 res) (res_w2 res) p
       \<and> js_ge (res_utility res) (g_utility G)
       \<and> res_w1 res = g_w1 G \<and> res_w2 res = g_w2 G \<and> res_utility res = g_utility G"
    unfolding run keep using feas x by (simp add: grid_as_phase_def)
  have b: "\<exists>res. performMainThreadOptimization uncmin opts s p = Inr res
       \<and> checkConstraints (res_w1 res) (res_w2 res) p
       \<and> isFinite (res_utility res)"
    unfolding run using numericalRefinement_feasible [OF feas fin, of uncmin opts] by simp
  show ?thesis using a b unfolding G_def by (rule conjI)
qed

text \<open>
  From a cold start on the default parameters the grid search succeeds, and the solve
  returns the grid result.
\<close>

theorem refinement_never_regresses_witness:
  "g_success (gridSearch default_options default_parameters
       (determineSearchSpace default_options initial_state default_parameters))
   \<and> (\<exists>res. performMainThreadOptimization uncmin_throws default_options initial_state
               default_parameters = Inr res
        \<and> checkConstraints (res_w1 res) (res_w2 res) default_parameters
        \<and> js_ge (res_utility res) (g_utility (gridSearch default_options default_parameters
              (determineSearchSpace default_options initial_state default_parameters)))
        \<and> res_w1 res = g_w1 (gridSearch default_options default_parameters
              (determineSearchSpace default_options initial_state default_parameters))
        \<and> res_w2 res = g_w2 (gridSearch default_options default_parameters
              (determineSearchSpace default_options initial_state default_parameters))
        \<and> res_utility res = g_utility (gridSearch default_options default_parameters
              (determineSearchSpace default_options initial_state default_parameters)))"
proof -
  have s: "g_success (gridSearch default_options default_parameters
       (determineSearchSpace default_options initial_state default_parameters))"
    by (rule default_cold_grid_success) (simp_all add: initial_state_def default_options_def)
  show ?thesis
    using s refinement_never_regresses [OF s, of uncmin_throws]
    by blast
qed

section \<open>Finiteness of the result\<close>






















subsection \<open>A service configured with no grid steps\<close>






end
